theory Spec2Isabelle
  imports Main
begin

section \<open>Batch NER prediction: the orchestrator of run\_transformer\_batch\_prediction.py\<close>

text \<open>
  The source file is one script: a version assertion run at import, \<open>main\<close> (start-up,
  the loop over the input files with its \<open>try\<close>/\<open>except\<close>, the formatting pass),
  and the argument parser. The data processor, the feature converter, \<open>predict\<close>,
  \<open>_output_bio\<close>, \<open>load_model\<close> and the format converter are imported from modules
  that are not part of the source at hand; they appear here as parameters (the record
  \<open>env\<close>) or, where a claim depends on what they do, as definitions modelled from the
  specification and marked as such.

  Lines 68 to 76 of the source read
  \<^verbatim>\<open>if args.use_bio:\<close> followed by four statements at the indentation of the \<open>if\<close> and then
  \<^verbatim>\<open>else:\<close> with an indented body. As it stands Python does not compile the file (an
  \<open>if\<close> needs an indented block). The only block structure those lines can have is the
  one embedded here: the four statements are the body of the \<open>if\<close>. Everything below is
  about the script with that indentation restored.
\<close>

subsection \<open>Python strings\<close>

text \<open>\<open>s.split(sep)\<close> for a separator of one character: never the empty list.\<close>

fun split_on :: "char \<Rightarrow> string \<Rightarrow> string list" where
  "split_on c [] = [[]]"
| "split_on c (x # xs) =
     (if x = c then [] # split_on c xs
      else (case split_on c xs of [] \<Rightarrow> [[x]] | w # ws \<Rightarrow> (x # w) # ws))"

text \<open>\<open>s.rfind(c)\<close>: the last index of \<open>c\<close> in \<open>s\<close>, or \<open>-1\<close>.\<close>

definition rfind :: "char \<Rightarrow> string \<Rightarrow> int" where
  "rfind c s =
     (if c \<in> set s then int (length s) - 1 - int (length (takeWhile (\<lambda>x. x \<noteq> c) (rev s)))
      else - 1)"

text \<open>\<open>s.endswith(t)\<close> and \<open>s.startswith(t)\<close>.\<close>

definition endswith :: "string \<Rightarrow> string \<Rightarrow> bool" where
  "endswith s t \<longleftrightarrow> length t \<le> length s \<and> drop (length s - length t) s = t"

definition startswith :: "string \<Rightarrow> string \<Rightarrow> bool" where
  "startswith s t \<longleftrightarrow> take (length t) s = t"

text \<open>\<open>sep.join(xs)\<close> for the separator \<open>/\<close>.\<close>

fun join_sep :: "string list \<Rightarrow> string" where
  "join_sep [] = []"
| "join_sep [x] = x"
| "join_sep (x # y # ys) = x @ ''/'' @ join_sep (y # ys)"

subsection \<open>Paths (\<open>pathlib\<close>, POSIX flavour, and \<open>os.path.join\<close>)\<close>

text \<open>
  A pure path is its root (\<open>''''\<close>, \<open>''/''\<close> or \<open>''//''\<close>) and its components.
  \<open>Path(s)\<close> splits \<open>s\<close> at \<open>/\<close> and drops empty components and \<open>.\<close>;
  exactly two leading slashes are kept as the root \<open>//\<close>, any other number is \<open>/\<close>.
\<close>

record ppath =
  root :: string
  parts :: "string list"

definition splitroot :: "string \<Rightarrow> string \<times> string" where
  "splitroot part =
     (if part \<noteq> [] \<and> hd part = CHR ''/'' then
        (let stripped_part = dropWhile (\<lambda>x. x = CHR ''/'') part in
         if length part - length stripped_part = 2 then (''//'', stripped_part)
         else (''/'', stripped_part))
      else ('''', part))"

definition Path :: "string \<Rightarrow> ppath" where
  "Path s =
     (case splitroot s of
        (r, rel) \<Rightarrow> \<lparr>root = r, parts = filter (\<lambda>x. x \<noteq> [] \<and> x \<noteq> ''.'') (split_on CHR ''/'' rel)\<rparr>)"

text \<open>\<open>str(p)\<close>.\<close>

definition path_str :: "ppath \<Rightarrow> string" where
  "path_str p = (if root p = [] \<and> parts p = [] then ''.'' else root p @ join_sep (parts p))"

text \<open>\<open>p.name\<close>: the last component, the empty string when there is none.\<close>

definition name :: "ppath \<Rightarrow> string" where
  "name p = (if parts p = [] then [] else last (parts p))"

text \<open>
  \<open>p.stem\<close>: the name without its last suffix. A leading dot and a trailing dot do not
  start a suffix (\<open>0 < i < len(name) - 1\<close>).
\<close>

definition stem_of_name :: "string \<Rightarrow> string" where
  "stem_of_name nm =
     (let i = rfind CHR ''.'' nm in
      if 0 < i \<and> i < int (length nm) - 1 then take (nat i) nm else nm)"

definition stem :: "ppath \<Rightarrow> string" where
  "stem p = stem_of_name (name p)"

text \<open>\<open>p.parent\<close>: the path without its last component; a path with none is its own parent.\<close>

definition parent :: "ppath \<Rightarrow> ppath" where
  "parent p = (if parts p = [] then p else p\<lparr>parts := butlast (parts p)\<rparr>)"

text \<open>\<open>p / key\<close>: an absolute \<open>key\<close> replaces \<open>p\<close>, a relative one is appended.\<close>

definition joinpath :: "ppath \<Rightarrow> string \<Rightarrow> ppath" where
  "joinpath p key =
     (let q = Path key in
      if root q \<noteq> [] then q else \<lparr>root = root p, parts = parts p @ parts q\<rparr>)"

text \<open>\<open>os.path.join(a, b)\<close>.\<close>

definition os_path_join :: "string \<Rightarrow> string \<Rightarrow> string" where
  "os_path_join a b =
     (if startswith b ''/'' then b
      else if a = [] \<or> endswith a ''/'' then a @ b
      else a @ ''/'' @ b)"

text \<open>
  \<open>Path(d).glob("*.txt")\<close> over the entries of the directory: the pattern matches every
  entry whose name ends in \<open>.txt\<close> (hidden files too), and yields \<open>Path(d) / entry\<close>.
\<close>

definition fnmatch_txt :: "string \<Rightarrow> bool" where
  "fnmatch_txt nm \<longleftrightarrow> endswith nm ''.txt''"

definition glob_txt :: "ppath \<Rightarrow> string list \<Rightarrow> ppath list" where
  "glob_txt d entries = map (joinpath d) (filter fnmatch_txt entries)"

subsection \<open>The output file name (line 70)\<close>

text \<open>\<^verbatim>\<open>ofn = each_file.stem.split(".")[0] + ".bio.txt"\<close>\<close>

definition ofn :: "ppath \<Rightarrow> string" where
  "ofn each_file = hd (split_on CHR ''.'' (stem each_file)) @ ''.bio.txt''"

subsection \<open>Exceptions\<close>

text \<open>
  An exception that is raised is a value. \<open>Exception\<close> stands for an instance of the
  class \<open>Exception\<close> or of one of its subclasses, the ones \<open>except Exception\<close> catches;
  \<open>NonException\<close> for the other instances of \<open>BaseException\<close> (\<open>KeyboardInterrupt\<close>,
  \<open>SystemExit\<close>, \<open>GeneratorExit\<close>), which it does not catch. The string is the text
  \<open>traceback.format_exc()\<close> gives for it.
\<close>

datatype pyerr = Exception string | NonException string

fun format_exc :: "pyerr \<Rightarrow> string" where
  "format_exc (Exception tb) = tb"
| "format_exc (NonException tb) = tb"

subsection \<open>The data of a run\<close>

text \<open>The command line, as \<open>argparser\<close> declares it (lines 95 to 128).\<close>

record cli_args =
  model_type :: string
  pretrained_model :: string
  preprocessed_text_dir :: string
  raw_text_dir :: string
  data_has_offset_information :: bool
  output_dir :: string
  output_dir_brat :: "string option"
  do_lower_case :: bool
  eval_batch_size :: int
  max_seq_length :: int
  log_file :: "string option"
  log_lvl :: string
  do_format :: int
  do_copy :: bool
  progress_bar :: bool
  use_bio :: bool
  gpu_nodes :: "string list option"

text \<open>
  The namespace \<open>args\<close>: the parsed command line and the attributes the script attaches
  to it afterwards (\<open>None\<close>: the attribute has not been set). \<open>'tok\<close> and \<open>'cfg\<close> are
  the tokenizer and the model configuration of the external library. The logger is
  represented by the arguments it was built from.
\<close>

record ('tok, 'cfg) args = cli_args +
  logger :: "(string option \<times> string) option"
  device :: "string option"
  label2idx :: "(string \<times> int) list option"
  idx2label :: "(int \<rightharpoonup> string) option"
  tokenizer :: "'tok option"
  config :: "'cfg option"
  use_crf :: "bool option"
  predict_output_file :: "string option"

text \<open>One token of a sentence, a sentence (a \<open>TestExample\<close>), a feature, a prediction.\<close>

record token =
  tok_text :: string
  tok_start :: int
  tok_end :: int
  tok_tag :: string

type_synonym sentence = "token list"

record feature =
  input_ids :: "nat list"
  attention_mask :: "bool list"
  label_ids :: "nat list"
  first_marks :: "bool list"

type_synonym prediction = "nat list"

text \<open>The values stored in an entry of \<open>labeled_bio_tup_lst\<close>, and Python's \<open>None\<close>.\<close>

datatype pyval = PyNone | Sents "sentence list" | Text string

text \<open>The data processor object: what \<open>set_data_dir\<close> and \<open>offset_info_available\<close> set.\<close>

record processor =
  data_dir :: string
  has_offset_info :: bool

text \<open>The file system: the regular files with their contents, and the directories.\<close>

record fsys =
  files :: "ppath \<rightharpoonup> string"
  dirs :: "ppath set"

text \<open>The keyword arguments of the call of the format converter (lines 84 to 90).\<close>

record fc_kwargs =
  fc_text_dir :: string
  fc_input_bio_dir :: string
  fc_output_dir :: ppath
  fc_formatter :: int
  fc_do_copy_text :: bool
  fc_labeled_bio_tup_lst :: "string \<rightharpoonup> (string \<rightharpoonup> pyval)"
  fc_use_bio :: bool

datatype log_level = INFO | ERROR

text \<open>
  The state the script works on: the namespace, the file system, the records handed to
  the logger, and the accumulator \<open>labeled_bio_tup_lst\<close> (a \<open>defaultdict(dict)\<close>).
\<close>

record ('tok, 'cfg) state =
  ns :: "('tok, 'cfg) args"
  fs :: fsys
  logged :: "(log_level \<times> string) list"
  labeled_bio_tup_lst :: "string \<rightharpoonup> (string \<rightharpoonup> pyval)"

text \<open>
  The collaborators imported from the other modules and from the libraries, as
  parameters. Each returns its result or the exception it raises. \<open>'mdl\<close> is the model.
  \<open>bio_sents\<close> is the part of \<open>_output_bio\<close> that turns examples and predictions into
  labelled sentences; \<open>decode\<close> is the text decoding of \<open>open(f, "r").read()\<close>;
  \<open>scandir\<close> lists the entries of a directory, in the order of the operating system.
\<close>

record ('tok, 'cfg, 'mdl) env =
  json_load :: "string \<Rightarrow> fsys \<Rightarrow> pyerr + (string \<times> int) list"
  MODEL_CLASSES :: "string list"
  tokenizer_from_pretrained :: "string \<Rightarrow> string \<Rightarrow> bool \<Rightarrow> pyerr + 'tok"
  config_from_pretrained :: "string \<Rightarrow> string \<Rightarrow> bool \<Rightarrow> pyerr + 'cfg"
  config_use_crf :: "'cfg \<Rightarrow> pyerr + bool"
  load_model :: "('tok, 'cfg) args \<Rightarrow> string \<Rightarrow> pyerr + 'mdl"
  model_to :: "'mdl \<Rightarrow> string \<Rightarrow> pyerr + 'mdl"
  scandir :: "fsys \<Rightarrow> ppath \<Rightarrow> string list"
  get_test_examples :: "processor \<Rightarrow> fsys \<Rightarrow> string \<Rightarrow> bool \<Rightarrow> pyerr + sentence list"
  transformer_convert_data_to_features ::
    "('tok, 'cfg) args \<Rightarrow> sentence list \<Rightarrow> (string \<times> int) list \<Rightarrow> 'tok \<Rightarrow> int \<Rightarrow> pyerr + feature list"
  predict :: "('tok, 'cfg) args \<Rightarrow> 'mdl \<Rightarrow> feature list \<Rightarrow> pyerr + prediction list"
  bio_sents :: "('tok, 'cfg) args \<Rightarrow> sentence list \<Rightarrow> prediction list \<Rightarrow> pyerr + sentence list"
  decode :: "string \<Rightarrow> pyerr + string"
  format_converter :: "fc_kwargs \<Rightarrow> fsys \<Rightarrow> pyerr + fsys"
  cuda_is_available :: bool
  cuda_device_count :: nat
  cuda_current_device :: string

subsection \<open>File system operations\<close>

text \<open>The path itself and the paths above it, from the top down.\<close>

definition lineage :: "ppath \<Rightarrow> ppath list" where
  "lineage p = map (\<lambda>k. p\<lparr>parts := take k (parts p)\<rparr>) [0 ..< Suc (length (parts p))]"

text \<open>
  \<open>p.mkdir(parents=True, exist_ok=True)\<close>: raises when the path or a path above it is
  a regular file, and otherwise makes the directories that are missing.
\<close>

definition mkdir_p :: "ppath \<Rightarrow> fsys \<Rightarrow> pyerr + fsys" where
  "mkdir_p p f =
     (if list_ex (\<lambda>q. files f q \<noteq> None) (lineage p) then Inl (Exception ''FileExistsError'')
      else Inr (f\<lparr>dirs := dirs f \<union> set (lineage p)\<rparr>))"

text \<open>Writing a whole file, as \<open>open(p, "w")\<close> and \<open>write\<close> do: the old content is replaced.\<close>

definition write_file :: "ppath \<Rightarrow> string \<Rightarrow> fsys \<Rightarrow> pyerr + fsys" where
  "write_file p content f =
     (if p \<in> dirs f \<or> parts p = [] then Inl (Exception ''IsADirectoryError'')
      else if parent p \<notin> dirs f then Inl (Exception ''FileNotFoundError'')
      else Inr (f\<lparr>files := (files f)(p \<mapsto> content)\<rparr>))"

text \<open>\<^verbatim>\<open>with open(each_file, "r") as f: ... f.read()\<close>\<close>

definition read_text :: "('tok, 'cfg, 'mdl) env \<Rightarrow> ppath \<Rightarrow> fsys \<Rightarrow> pyerr + string" where
  "read_text E p f =
     (if p \<in> dirs f then Inl (Exception ''IsADirectoryError'')
      else (case files f p of
              None \<Rightarrow> Inl (Exception ''FileNotFoundError'')
            | Some bytes \<Rightarrow> decode E bytes))"

subsection \<open>The BIO writer\<close>

text \<open>
  One line per token, \<open>text\<close>, a tab, \<open>tag\<close>, and an empty line after each sentence.
\<close>

definition bio_line :: "token \<Rightarrow> string" where
  "bio_line t = tok_text t @ [CHR 0x09] @ tok_tag t"

definition bio_lines :: "sentence list \<Rightarrow> string list" where
  "bio_lines sents = concat (map (\<lambda>sent. map bio_line sent @ [[]]) sents)"

definition bio_text :: "sentence list \<Rightarrow> string" where
  "bio_text sents = concat (map (\<lambda>l. l @ [CHR 0x0A]) (bio_lines sents))"

text \<open>
  Modelled from the spec: \<open>_output_bio\<close> of \<open>transformer_ner.task\<close> is not in the source
  file (an Isabelle name cannot start with an underscore, hence \<open>task_output_bio\<close>).
  Section 4.4: with \<open>save_bio\<close> it writes the lines above to the BIO file, which the
  caller names in \<open>args.predict_output_file\<close>; without it, it returns the list of
  labelled sentences and does not touch the disk. The labelled sentences themselves are
  the parameter \<open>bio_sents\<close>.
\<close>

definition task_output_bio ::
  "('tok, 'cfg, 'mdl) env \<Rightarrow> ('tok, 'cfg) args \<Rightarrow> sentence list \<Rightarrow> prediction list \<Rightarrow> bool \<Rightarrow> fsys
     \<Rightarrow> pyerr + (pyval \<times> fsys)" where
  "task_output_bio E a tests preds save_bio f =
     (case bio_sents E a tests preds of
        Inl e \<Rightarrow> Inl e
      | Inr new_sents \<Rightarrow>
          if save_bio then
            (case predict_output_file a of
               None \<Rightarrow> Inl (Exception ''AttributeError'')
             | Some p \<Rightarrow>
                 (case write_file (Path p) (bio_text new_sents) f of
                    Inl e \<Rightarrow> Inl e
                  | Inr f' \<Rightarrow> Inr (PyNone, f')))
          else Inr (Sents new_sents, f))"

subsection \<open>The loop over the input files (lines 57 to 79)\<close>

text \<open>\<open>d[k][key] = v\<close> on a \<open>defaultdict(dict)\<close>: a missing \<open>d[k]\<close> is created empty first.\<close>

definition setitem2 ::
  "(string \<rightharpoonup> (string \<rightharpoonup> pyval)) \<Rightarrow> string \<Rightarrow> string \<Rightarrow> pyval \<Rightarrow> (string \<rightharpoonup> (string \<rightharpoonup> pyval))" where
  "setitem2 d k key v = d(k \<mapsto> (case d k of None \<Rightarrow> Map.empty | Some entry \<Rightarrow> entry)(key \<mapsto> v))"

text \<open>
  Lines 60 to 66: the examples of one file, their features, the predictions. The first
  exception raised ends the sequence.
\<close>

definition run_prediction ::
  "('tok, 'cfg, 'mdl) env \<Rightarrow> processor \<Rightarrow> 'mdl \<Rightarrow> (string \<times> int) list \<Rightarrow> 'tok \<Rightarrow> ppath
     \<Rightarrow> ('tok, 'cfg) state \<Rightarrow> pyerr + (sentence list \<times> prediction list)" where
  "run_prediction E ner_data_processor model l2i tok each_file s =
     (case get_test_examples E ner_data_processor (fs s) (name each_file) (use_bio (ns s)) of
        Inl e \<Rightarrow> Inl e
      | Inr test_example \<Rightarrow>
     (case transformer_convert_data_to_features E (ns s) test_example l2i tok (max_seq_length (ns s)) of
        Inl e \<Rightarrow> Inl e
      | Inr test_features \<Rightarrow>
     (case predict E (ns s) model test_features of
        Inl e \<Rightarrow> Inl e
      | Inr predictions \<Rightarrow> Inr (test_example, predictions))))"

text \<open>
  The body of the \<open>try\<close> for one file (lines 60 to 76). The result is the exception that
  left the body, if any, and the state at that moment: what was stored before the
  exception stays.
\<close>

definition try_body ::
  "('tok, 'cfg, 'mdl) env \<Rightarrow> processor \<Rightarrow> 'mdl \<Rightarrow> (string \<times> int) list \<Rightarrow> 'tok \<Rightarrow> ppath
     \<Rightarrow> ('tok, 'cfg) state \<Rightarrow> pyerr option \<times> ('tok, 'cfg) state" where
  "try_body E ner_data_processor model l2i tok each_file s =
     (case run_prediction E ner_data_processor model l2i tok each_file s of
        Inl e \<Rightarrow> (Some e, s)
      | Inr (test_example, predictions) \<Rightarrow>
          if use_bio (ns s) then
            (case mkdir_p (Path (output_dir (ns s))) (fs s) of
               Inl e \<Rightarrow> (Some e, s)
             | Inr f1 \<Rightarrow>
                 (let s1 = s\<lparr>fs := f1\<rparr>;
                      s2 = s1\<lparr>ns := (ns s1)\<lparr>predict_output_file :=
                              Some (os_path_join (output_dir (ns s1)) (ofn each_file))\<rparr>\<rparr>
                  in case task_output_bio E (ns s2) test_example predictions True (fs s2) of
                       Inl e \<Rightarrow> (Some e, s2)
                     | Inr (r, f2) \<Rightarrow> (None, s2\<lparr>fs := f2\<rparr>)))
          else
            (case task_output_bio E (ns s) test_example predictions False (fs s) of
               Inl e \<Rightarrow> (Some e, s)
             | Inr (r, f1) \<Rightarrow>
                 (let s1 = s\<lparr>fs := f1,
                             labeled_bio_tup_lst :=
                               setitem2 (labeled_bio_tup_lst s) (name each_file) ''sents'' r\<rparr>
                  in case read_text E each_file (fs s1) of
                       Inl e \<Rightarrow> (Some e, s1)
                     | Inr raw \<Rightarrow>
                         (None, s1\<lparr>labeled_bio_tup_lst :=
                                    setitem2 (labeled_bio_tup_lst s1) (name each_file) ''raw_text''
                                      (Text raw)\<rparr>))))"

text \<open>The two records the handler hands to \<open>args.logger.error\<close> (lines 78 and 79).\<close>

definition error_records :: "ppath \<Rightarrow> pyerr \<Rightarrow> (log_level \<times> string) list" where
  "error_records each_file ex =
     [(ERROR, ''Encountered an error when processing predictions for file: '' @ name each_file),
      (ERROR, format_exc ex)]"

text \<open>
  One iteration: the \<open>try\<close> with its handler \<open>except Exception\<close>. An exception outside
  the class \<open>Exception\<close> is not handled and leaves the loop.
\<close>

definition process_file ::
  "('tok, 'cfg, 'mdl) env \<Rightarrow> processor \<Rightarrow> 'mdl \<Rightarrow> (string \<times> int) list \<Rightarrow> 'tok \<Rightarrow> ppath
     \<Rightarrow> ('tok, 'cfg) state \<Rightarrow> pyerr option \<times> ('tok, 'cfg) state" where
  "process_file E ner_data_processor model l2i tok each_file s =
     (case try_body E ner_data_processor model l2i tok each_file s of
        (None, s') \<Rightarrow> (None, s')
      | (Some (Exception tb), s') \<Rightarrow>
          (None, s'\<lparr>logged := logged s' @ error_records each_file (Exception tb)\<rparr>)
      | (Some (NonException tb), s') \<Rightarrow> (Some (NonException tb), s'))"

fun batch_loop ::
  "('tok, 'cfg, 'mdl) env \<Rightarrow> processor \<Rightarrow> 'mdl \<Rightarrow> (string \<times> int) list \<Rightarrow> 'tok \<Rightarrow> ppath list
     \<Rightarrow> ('tok, 'cfg) state \<Rightarrow> pyerr option \<times> ('tok, 'cfg) state" where
  "batch_loop E ner_data_processor model l2i tok [] s = (None, s)"
| "batch_loop E ner_data_processor model l2i tok (each_file # rest) s =
     (case process_file E ner_data_processor model l2i tok each_file s of
        (None, s') \<Rightarrow> batch_loop E ner_data_processor model l2i tok rest s'
      | (Some e, s') \<Rightarrow> (Some e, s'))"

subsection \<open>The formatting pass (lines 81 to 90)\<close>

text \<open>
  \<^verbatim>\<open>Path(args.output_dir_brat) if args.output_dir_brat else
  Path(args.output_dir).parent / "{}_formatted_output".format(Path(args.output_dir).stem)\<close>
  The condition is Python's truth value: \<open>None\<close> and the empty string are false.
\<close>

definition output_formatted_dir :: "('tok, 'cfg) args \<Rightarrow> ppath" where
  "output_formatted_dir a =
     (case output_dir_brat a of
        Some brat \<Rightarrow>
          if brat \<noteq> [] then Path brat
          else joinpath (parent (Path (output_dir a))) (stem (Path (output_dir a)) @ ''_formatted_output'')
      | None \<Rightarrow>
          joinpath (parent (Path (output_dir a))) (stem (Path (output_dir a)) @ ''_formatted_output''))"

definition format_kwargs :: "('tok, 'cfg) state \<Rightarrow> fc_kwargs" where
  "format_kwargs s =
     \<lparr>fc_text_dir = raw_text_dir (ns s),
      fc_input_bio_dir = (if use_bio (ns s) then output_dir (ns s) else raw_text_dir (ns s)),
      fc_output_dir = output_formatted_dir (ns s),
      fc_formatter = do_format (ns s),
      fc_do_copy_text = do_copy (ns s),
      fc_labeled_bio_tup_lst = labeled_bio_tup_lst s,
      fc_use_bio = use_bio (ns s)\<rparr>"

definition format_pass ::
  "('tok, 'cfg, 'mdl) env \<Rightarrow> ('tok, 'cfg) state \<Rightarrow> pyerr option \<times> ('tok, 'cfg) state" where
  "format_pass E s =
     (if do_format (ns s) \<noteq> 0 then
        (case mkdir_p (output_formatted_dir (ns s)) (fs s) of
           Inl e \<Rightarrow> (Some e, s)
         | Inr f1 \<Rightarrow>
             (case format_converter E (format_kwargs s) f1 of
                Inl e \<Rightarrow> (Some e, s\<lparr>fs := f1\<rparr>)
              | Inr f2 \<Rightarrow> (None, s\<lparr>fs := f2\<rparr>)))
      else (None, s))"

subsection \<open>\<open>main\<close> (lines 31 to 90)\<close>

text \<open>\<^verbatim>\<open>idx2label = {v: k for k, v in label2idx.items()}\<close>: a later item wins.\<close>

definition invert_dict :: "(string \<times> int) list \<Rightarrow> (int \<rightharpoonup> string)" where
  "invert_dict items = map_of (rev (map (\<lambda>(k, v). (v, k)) items))"

text \<open>
  Lines 32 to 55: the label vocabulary, the tokenizer, the configuration, the model and
  the data processor. An exception here is outside every \<open>try\<close>.
\<close>

definition startup ::
  "('tok, 'cfg, 'mdl) env \<Rightarrow> ('tok, 'cfg) state
     \<Rightarrow> (pyerr \<times> ('tok, 'cfg) state) +
        (('tok, 'cfg) state \<times> processor \<times> 'mdl \<times> (string \<times> int) list \<times> 'tok)" where
  "startup E s0 =
     (case json_load E (os_path_join (pretrained_model (ns s0)) ''label2idx.json'') (fs s0) of
        Inl e \<Rightarrow> Inl (e, s0)
      | Inr l2i \<Rightarrow>
     (let s1 = s0\<lparr>ns := (ns s0)\<lparr>label2idx := Some l2i, idx2label := Some (invert_dict l2i)\<rparr>\<rparr> in
      if model_type (ns s1) \<notin> set (MODEL_CLASSES E) then Inl (Exception ''KeyError'', s1)
      else
     (case tokenizer_from_pretrained E (model_type (ns s1)) (pretrained_model (ns s1))
             (do_lower_case (ns s1)) of
        Inl e \<Rightarrow> Inl (e, s1)
      | Inr tok \<Rightarrow>
     (let s2 = s1\<lparr>ns := (ns s1)\<lparr>tokenizer := Some tok\<rparr>\<rparr> in
      case config_from_pretrained E (model_type (ns s2)) (pretrained_model (ns s2))
             (do_lower_case (ns s2)) of
        Inl e \<Rightarrow> Inl (e, s2)
      | Inr cfg \<Rightarrow>
     (let s3 = s2\<lparr>ns := (ns s2)\<lparr>config := Some cfg\<rparr>\<rparr> in
      case config_use_crf E cfg of
        Inl e \<Rightarrow> Inl (e, s3)
      | Inr crf \<Rightarrow>
     (let s4 = s3\<lparr>ns := (ns s3)\<lparr>use_crf := Some crf\<rparr>\<rparr> in
      case load_model E (ns s4) (pretrained_model (ns s4)) of
        Inl e \<Rightarrow> Inl (e, s4)
      | Inr model0 \<Rightarrow>
     (case device (ns s4) of
        None \<Rightarrow> Inl (Exception ''AttributeError'', s4)
      | Some dev \<Rightarrow>
     (case model_to E model0 dev of
        Inl e \<Rightarrow> Inl (e, s4)
      | Inr model \<Rightarrow>
     (case logger (ns s4) of
        None \<Rightarrow> Inl (Exception ''AttributeError'', s4)
      | Some lg \<Rightarrow>
          Inr (s4,
               \<lparr>data_dir = preprocessed_text_dir (ns s4),
                has_offset_info = data_has_offset_information (ns s4)\<rparr>,
               model, l2i, tok))))))))))"

text \<open>
  \<open>main\<close>: the start-up, the fresh accumulator (line 57), the loop over the files the
  glob yields, the formatting pass.
\<close>

definition main ::
  "('tok, 'cfg, 'mdl) env \<Rightarrow> ('tok, 'cfg) state \<Rightarrow> pyerr option \<times> ('tok, 'cfg) state" where
  "main E s0 =
     (case startup E s0 of
        Inl (e, s) \<Rightarrow> (Some e, s)
      | Inr (s4, ner_data_processor, model, l2i, tok) \<Rightarrow>
          (let s5 = s4\<lparr>labeled_bio_tup_lst := Map.empty\<rparr>;
               each_files = glob_txt (Path (preprocessed_text_dir (ns s5)))
                              (scandir E (fs s5) (Path (preprocessed_text_dir (ns s5))))
           in case batch_loop E ner_data_processor model l2i tok each_files s5 of
                (Some e, s6) \<Rightarrow> (Some e, s6)
              | (None, s6) \<Rightarrow> format_pass E s6))"

subsection \<open>The version check (lines 26 to 28)\<close>

text \<open>
  A version as \<open>packaging.version.parse\<close> returns it: epoch, release numbers,
  pre-release (\<open>a\<close>, \<open>b\<close> or \<open>rc\<close> and a number), post-release, development release
  and local segments (numbers and strings).
\<close>

record version =
  epoch :: nat
  release :: "nat list"
  pre :: "(string \<times> nat) option"
  post :: "nat option"
  dev :: "nat option"
  local_segments :: "(nat + string) list option"

text \<open>Python's comparison of tuples, element by element, as a three-way result.\<close>

datatype ord3 = LT | EQ | GT

definition cmp_nat :: "nat \<Rightarrow> nat \<Rightarrow> ord3" where
  "cmp_nat a b = (if a < b then LT else if a = b then EQ else GT)"

fun cmp_list :: "('a \<Rightarrow> 'a \<Rightarrow> ord3) \<Rightarrow> 'a list \<Rightarrow> 'a list \<Rightarrow> ord3" where
  "cmp_list c [] [] = EQ"
| "cmp_list c [] (y # ys) = LT"
| "cmp_list c (x # xs) [] = GT"
| "cmp_list c (x # xs) (y # ys) = (case c x y of EQ \<Rightarrow> cmp_list c xs ys | r \<Rightarrow> r)"

definition cmp_char :: "char \<Rightarrow> char \<Rightarrow> ord3" where
  "cmp_char a b = cmp_nat (of_char a) (of_char b)"

definition cmp_str :: "string \<Rightarrow> string \<Rightarrow> ord3" where
  "cmp_str = cmp_list cmp_char"

definition then_cmp :: "ord3 \<Rightarrow> ord3 \<Rightarrow> ord3" where
  "then_cmp r1 r2 = (case r1 of EQ \<Rightarrow> r2 | r \<Rightarrow> r)"

text \<open>
  The components of \<open>_cmpkey\<close>. The release loses its trailing zeros. A development
  release with neither pre- nor post-release sorts before every pre-release; a version
  with no pre-release sorts after them. A missing post-release sorts first, a missing
  development release last, a missing local segment first; in a local segment a number
  sorts after a string.
\<close>

datatype 'a ext = NegInf | Fin 'a | PosInf

fun cmp_ext :: "('a \<Rightarrow> 'a \<Rightarrow> ord3) \<Rightarrow> 'a ext \<Rightarrow> 'a ext \<Rightarrow> ord3" where
  "cmp_ext c NegInf NegInf = EQ"
| "cmp_ext c NegInf b = LT"
| "cmp_ext c PosInf PosInf = EQ"
| "cmp_ext c PosInf b = GT"
| "cmp_ext c (Fin x) NegInf = GT"
| "cmp_ext c (Fin x) PosInf = LT"
| "cmp_ext c (Fin x) (Fin y) = c x y"

definition key_release :: "version \<Rightarrow> nat list" where
  "key_release v = rev (dropWhile (\<lambda>x. x = 0) (rev (release v)))"

definition key_pre :: "version \<Rightarrow> (string \<times> nat) ext" where
  "key_pre v =
     (if pre v = None \<and> post v = None \<and> dev v \<noteq> None then NegInf
      else (case pre v of None \<Rightarrow> PosInf | Some p \<Rightarrow> Fin p))"

definition key_post :: "version \<Rightarrow> nat ext" where
  "key_post v = (case post v of None \<Rightarrow> NegInf | Some n \<Rightarrow> Fin n)"

definition key_dev :: "version \<Rightarrow> nat ext" where
  "key_dev v = (case dev v of None \<Rightarrow> PosInf | Some n \<Rightarrow> Fin n)"

definition key_local :: "version \<Rightarrow> (nat ext \<times> string) list ext" where
  "key_local v =
     (case local_segments v of
        None \<Rightarrow> NegInf
      | Some segs \<Rightarrow> Fin (map (\<lambda>i. case i of Inl n \<Rightarrow> (Fin n, []) | Inr t \<Rightarrow> (NegInf, t)) segs))"

definition cmp_pre :: "string \<times> nat \<Rightarrow> string \<times> nat \<Rightarrow> ord3" where
  "cmp_pre a b = then_cmp (cmp_str (fst a) (fst b)) (cmp_nat (snd a) (snd b))"

definition cmp_seg :: "nat ext \<times> string \<Rightarrow> nat ext \<times> string \<Rightarrow> ord3" where
  "cmp_seg a b = then_cmp (cmp_ext cmp_nat (fst a) (fst b)) (cmp_str (snd a) (snd b))"

definition cmp_version :: "version \<Rightarrow> version \<Rightarrow> ord3" where
  "cmp_version a b =
     then_cmp (cmp_nat (epoch a) (epoch b))
    (then_cmp (cmp_list cmp_nat (key_release a) (key_release b))
    (then_cmp (cmp_ext cmp_pre (key_pre a) (key_pre b))
    (then_cmp (cmp_ext cmp_nat (key_post a) (key_post b))
    (then_cmp (cmp_ext cmp_nat (key_dev a) (key_dev b))
              (cmp_ext (cmp_list cmp_seg) (key_local a) (key_local b))))))"

text \<open>\<open>a >= b\<close> and \<open>a < b\<close> on versions.\<close>

definition version_ge :: "version \<Rightarrow> version \<Rightarrow> bool" where
  "version_ge a b \<longleftrightarrow> cmp_version a b \<noteq> LT"

definition version_lt :: "version \<Rightarrow> version \<Rightarrow> bool" where
  "version_lt a b \<longleftrightarrow> cmp_version a b = LT"

text \<open>\<open>version.parse('3.0.0')\<close>\<close>

definition v3_0_0 :: version where
  "v3_0_0 = \<lparr>epoch = 0, release = [3, 0, 0], pre = None, post = None, dev = None,
             local_segments = None\<rparr>"

text \<open>
  The module-level statement: \<open>assert pytorch_version >= version.parse('3.0.0')\<close>.
  The text of the error does not carry the formatted version here.
\<close>

definition version_assertion :: "version \<Rightarrow> pyerr option" where
  "version_assertion pytorch_version =
     (if version_ge pytorch_version v3_0_0 then None
      else Some (Exception ''AssertionError: we now only support transformers version >=3.0.0''))"

subsection \<open>The script (the module-level statements and lines 136 to 147)\<close>

text \<open>
  Running the file: the assertion at import; then the namespace from the parsed command
  line with the logger and the device attached, the record about the device, and
  \<open>main\<close>. The result is the exception that ended the run, if any, and the final state;
  when the assertion fails there is no state yet, only the untouched file system.
\<close>

definition initial_state ::
  "('tok, 'cfg, 'mdl) env \<Rightarrow> cli_args \<Rightarrow> fsys \<Rightarrow> ('tok, 'cfg) state" where
  "initial_state E cli f =
     \<lparr>ns = cli_args.extend cli
             (args.fields
                (Some (log_file cli, log_lvl cli))
                (Some (if cuda_is_available E then ''cuda'' else ''cpu''))
                None None None None None None),
      fs = f,
      logged = [(INFO, if cuda_device_count E \<noteq> 0
                       then ''Task will use cuda device: GPU_'' @ cuda_current_device E @ ''.''
                       else ''Task will use CPU.'')],
      labeled_bio_tup_lst = Map.empty\<rparr>"

definition script ::
  "('tok, 'cfg, 'mdl) env \<Rightarrow> version \<Rightarrow> cli_args \<Rightarrow> fsys
     \<Rightarrow> pyerr option \<times> (fsys + ('tok, 'cfg) state)" where
  "script E transformers_version cli f =
     (case version_assertion transformers_version of
        Some e \<Rightarrow> (Some e, Inl f)
      | None \<Rightarrow> (case main E (initial_state E cli f) of (r, s) \<Rightarrow> (r, Inr s)))"

subsection \<open>A concrete run, for the instances below\<close>

text \<open>
  An input directory \<open>in\<close> with five entries. \<open>doc.txt\<close> and \<open>doc.note.txt\<close> hold the
  sentence of the scenario of the specification; \<open>bad.txt\<close> cannot be parsed by the data
  processor; \<open>latin.txt\<close> holds a byte that the text decoding of \<open>open\<close> rejects;
  \<open>notes.md\<close> is not matched by the glob. A second directory \<open>notes\<close> has entries but
  none that the glob matches. The model predicts the labels of the scenario.
\<close>

definition demo_sentence :: sentence where
  "demo_sentence =
     [\<lparr>tok_text = ''John'', tok_start = 0, tok_end = 4, tok_tag = ''O''\<rparr>,
      \<lparr>tok_text = ''lives'', tok_start = 5, tok_end = 10, tok_tag = ''O''\<rparr>,
      \<lparr>tok_text = ''in'', tok_start = 11, tok_end = 13, tok_tag = ''O''\<rparr>,
      \<lparr>tok_text = ''Paris'', tok_start = 14, tok_end = 19, tok_tag = ''O''\<rparr>]"

definition demo_labelled :: sentence where
  "demo_labelled =
     [\<lparr>tok_text = ''John'', tok_start = 0, tok_end = 4, tok_tag = ''B-PER''\<rparr>,
      \<lparr>tok_text = ''lives'', tok_start = 5, tok_end = 10, tok_tag = ''O''\<rparr>,
      \<lparr>tok_text = ''in'', tok_start = 11, tok_end = 13, tok_tag = ''O''\<rparr>,
      \<lparr>tok_text = ''Paris'', tok_start = 14, tok_end = 19, tok_tag = ''B-LOC''\<rparr>]"

definition demo_labels :: "nat \<Rightarrow> string" where
  "demo_labels i = (if i = 1 then ''B-PER'' else if i = 2 then ''B-LOC'' else ''O'')"

definition demo_env :: "(unit, unit, unit) env" where
  "demo_env =
     \<lparr>json_load = (\<lambda>p f. Inr [(''O'', 0), (''B-PER'', 1), (''B-LOC'', 2)]),
      MODEL_CLASSES = [''bert'', ''roberta'', ''xlnet'', ''albert'', ''distilbert''],
      tokenizer_from_pretrained = (\<lambda>mt p lc. Inr ()),
      config_from_pretrained = (\<lambda>mt p lc. Inr ()),
      config_use_crf = (\<lambda>c. Inr False),
      load_model = (\<lambda>a p. Inr ()),
      model_to = (\<lambda>m d. Inr m),
      scandir = (\<lambda>f d. if d = \<lparr>root = [], parts = [''in'']\<rparr>
                         then [''doc.txt'', ''notes.md'', ''doc.note.txt'', ''bad.txt'', ''latin.txt'']
                         else if d = \<lparr>root = [], parts = [''notes'']\<rparr>
                         then [''readme.md'', ''a.txt.bak'', ''TXT'']
                         else []),
      get_test_examples = (\<lambda>pr f nm ub. if nm = ''bad.txt'' then Inl (Exception ''ValueError'')
                                          else Inr [demo_sentence]),
      transformer_convert_data_to_features =
        (\<lambda>a ex l2i tok n. Inr (map (\<lambda>sent. \<lparr>input_ids = map (\<lambda>t. length (tok_text t)) sent,
                                             attention_mask = map (\<lambda>t. True) sent,
                                             label_ids = map (\<lambda>t. 0) sent,
                                             first_marks = map (\<lambda>t. True) sent\<rparr>) ex)),
      predict = (\<lambda>a m fts. Inr (map (\<lambda>ft. [1, 0, 0, 2]) fts)),
      bio_sents = (\<lambda>a tests preds.
                     Inr (map (\<lambda>(sent, p). map (\<lambda>(t, i). t\<lparr>tok_tag := demo_labels i\<rparr>) (zip sent p))
                            (zip tests preds))),
      decode = (\<lambda>b. if list_all (\<lambda>c. (of_char c :: nat) < 128) b then Inr b
                     else Inl (Exception ''UnicodeDecodeError'')),
      format_converter = (\<lambda>k f. Inr f),
      cuda_is_available = False,
      cuda_device_count = 0,
      cuda_current_device = ''0''\<rparr>"

definition demo_fs :: fsys where
  "demo_fs =
     \<lparr>files = map_of
        [(\<lparr>root = [], parts = [''in'', ''doc.txt'']\<rparr>, ''John lives in Paris''),
         (\<lparr>root = [], parts = [''in'', ''doc.note.txt'']\<rparr>, ''John lives in Paris''),
         (\<lparr>root = [], parts = [''in'', ''bad.txt'']\<rparr>, ''John''),
         (\<lparr>root = [], parts = [''in'', ''latin.txt'']\<rparr>, [CHR 0xE9]),
         (\<lparr>root = [], parts = [''in'', ''notes.md'']\<rparr>, ''notes'')],
      dirs = {\<lparr>root = [], parts = []\<rparr>, \<lparr>root = [], parts = [''in'']\<rparr>}\<rparr>"

definition demo_cli :: "bool \<Rightarrow> int \<Rightarrow> cli_args" where
  "demo_cli ub fmt =
     \<lparr>model_type = ''bert'', pretrained_model = ''model'', preprocessed_text_dir = ''in'',
      raw_text_dir = ''raw'', data_has_offset_information = True, output_dir = ''out'',
      output_dir_brat = None, do_lower_case = False, eval_batch_size = 8,
      max_seq_length = 128, log_file = None, log_lvl = ''i'', do_format = fmt,
      do_copy = False, progress_bar = False, use_bio = ub, gpu_nodes = None\<rparr>"

definition demo_state :: "bool \<Rightarrow> int \<Rightarrow> (unit, unit) state" where
  "demo_state ub fmt = initial_state demo_env (demo_cli ub fmt) demo_fs"

definition demo_processor :: processor where
  "demo_processor = \<lparr>data_dir = ''in'', has_offset_info = True\<rparr>"

definition demo_l2i :: "(string \<times> int) list" where
  "demo_l2i = [(''O'', 0), (''B-PER'', 1), (''B-LOC'', 2)]"

subsection \<open>Features, predictions and their realignment, from the specification\<close>

text \<open>
  The feature converter, \<open>predict\<close> and the realignment inside \<open>_output_bio\<close> are not
  in the source file: \<open>main\<close> only calls them. The definitions of this subsection follow
  sections 3 and 4.2 to 4.4 of the specification; \<open>main\<close> above does not use them, it
  takes its collaborators as parameters. The tokenizer is a parameter here: the sub-word
  pieces (ids) of one word. The realignment is given the features, which hold the
  alignment it needs. Where the specification is silent (a word that truncation has left
  without a first piece), the behaviour is a parameter as well.
\<close>

text \<open>
  Modelled from the spec: the sub-word split of the feature converter is missing.
  Section 4.2: the pieces of the words of a sentence in order, each marked as the first
  piece of its word or not (the alignment markers).
\<close>

definition word_pieces :: "(string \<Rightarrow> nat list) \<Rightarrow> sentence \<Rightarrow> (nat \<times> bool) list" where
  "word_pieces tokz sent =
     concat (map (\<lambda>w. case tokz (tok_text w) of
                          [] \<Rightarrow> []
                        | p # ps \<Rightarrow> (p, True) # map (\<lambda>q. (q, False)) ps) sent)"

text \<open>
  Modelled from the spec: \<open>transformer_convert_data_to_features\<close> is missing.
  Section 4.2: a sequence longer than the maximum is truncated, a shorter one is padded
  to it; the label ids of inference-only examples are placeholders.
\<close>

definition spec_convert :: "(string \<Rightarrow> nat list) \<Rightarrow> nat \<Rightarrow> sentence \<Rightarrow> feature" where
  "spec_convert tokz max_seq_len sent =
     (let kept = take max_seq_len (word_pieces tokz sent);
          pad = max_seq_len - length kept
      in \<lparr>input_ids = map fst kept @ replicate pad 0,
          attention_mask = replicate (length kept) True @ replicate pad False,
          label_ids = replicate max_seq_len 0,
          first_marks = map snd kept @ replicate pad False\<rparr>)"

text \<open>
  Modelled from the spec: \<open>predict\<close> is missing. Sections 3 and 4.3: a prediction is
  one label index for each position of the tokenized input, padding apart. The model is
  a parameter: the label index it gives to a position of an input.
\<close>

definition spec_predict :: "(nat list \<Rightarrow> nat \<Rightarrow> nat) \<Rightarrow> feature \<Rightarrow> prediction" where
  "spec_predict model ft =
     map (model (input_ids ft)) [0 ..< length (filter (\<lambda>b. b) (attention_mask ft))]"

text \<open>
  Modelled from the spec: the realignment inside \<open>_output_bio\<close> is missing. Section 4.4:
  each predicted index is mapped back to its word by the alignment markers, and the
  index predicted for the first piece of a word is the one kept for the word.
\<close>

definition realign :: "feature \<Rightarrow> prediction \<Rightarrow> nat list" where
  "realign ft p = map snd (filter fst (zip (first_marks ft) p))"

text \<open>
  Modelled from the spec: the labelling of the tokens inside \<open>_output_bio\<close> is missing.
  Section 3: every predicted index resolves to a label string of the vocabulary; here a
  missing index is the \<open>KeyError\<close> of the dictionary \<open>idx2label\<close>. Words and kept
  indices are paired in order. What \<open>_output_bio\<close> does when their numbers differ
  (words left without an index, or indices left without a word) is not stated: it is
  the parameter \<open>unmatched\<close>, given the words and the indices that are left.
\<close>

fun tag_tokens ::
  "(sentence \<Rightarrow> nat list \<Rightarrow> pyerr + sentence) \<Rightarrow> (nat \<rightharpoonup> string) \<Rightarrow> sentence \<Rightarrow> nat list
     \<Rightarrow> pyerr + sentence" where
  "tag_tokens unmatched i2l [] [] = Inr []"
| "tag_tokens unmatched i2l (w # ws) (lb # lbs) =
     (case i2l lb of
        None \<Rightarrow> Inl (Exception ''KeyError'')
      | Some tg \<Rightarrow>
          (case tag_tokens unmatched i2l ws lbs of
             Inl e \<Rightarrow> Inl e
           | Inr r \<Rightarrow> Inr (w\<lparr>tok_tag := tg\<rparr> # r)))"
| "tag_tokens unmatched i2l ws lbs = unmatched ws lbs"

text \<open>
  Modelled from the spec: the steps of lines 60 to 72 for the sentences of one file, with
  the definitions above in the place of the missing collaborators. Sections 4.2 to 4.4:
  each sentence is converted to its feature, the prediction is made from the feature,
  and the sentence is labelled from the realignment of that prediction; the result is
  one labelled sentence for each example.
\<close>

fun spec_file_sents ::
  "(sentence \<Rightarrow> nat list \<Rightarrow> pyerr + sentence) \<Rightarrow> (string \<Rightarrow> nat list) \<Rightarrow> (nat list \<Rightarrow> nat \<Rightarrow> nat)
     \<Rightarrow> nat \<Rightarrow> (nat \<rightharpoonup> string) \<Rightarrow> sentence list \<Rightarrow> pyerr + sentence list" where
  "spec_file_sents unmatched tokz model max_seq_len i2l [] = Inr []"
| "spec_file_sents unmatched tokz model max_seq_len i2l (sent # tests) =
     (let ft = spec_convert tokz max_seq_len sent;
          p = spec_predict model ft
      in case tag_tokens unmatched i2l sent (realign ft p) of
           Inl e \<Rightarrow> Inl e
         | Inr new_sent \<Rightarrow>
             (case spec_file_sents unmatched tokz model max_seq_len i2l tests of
                Inl e \<Rightarrow> Inl e
              | Inr r \<Rightarrow> Inr (new_sent # r)))"

text \<open>
  The invariants of section 3 for the run of one file: the alignment markers of each
  feature recover the words of its sentence (one marked first piece for each word), and
  every predicted index resolves to a label string.
\<close>

definition markers_recover_words :: "(string \<Rightarrow> nat list) \<Rightarrow> nat \<Rightarrow> sentence \<Rightarrow> bool" where
  "markers_recover_words tokz max_seq_len sent \<longleftrightarrow>
     length (filter (\<lambda>b. b) (first_marks (spec_convert tokz max_seq_len sent))) = length sent"

definition indices_resolve ::
  "(string \<Rightarrow> nat list) \<Rightarrow> (nat list \<Rightarrow> nat \<Rightarrow> nat) \<Rightarrow> nat \<Rightarrow> (nat \<rightharpoonup> string) \<Rightarrow> sentence \<Rightarrow> bool" where
  "indices_resolve tokz model max_seq_len i2l sent \<longleftrightarrow>
     list_all (\<lambda>lb. i2l lb \<noteq> None) (spec_predict model (spec_convert tokz max_seq_len sent))"

text \<open>The lines of a text that are not empty.\<close>

definition non_blank_lines :: "string \<Rightarrow> string list" where
  "non_blank_lines txt = filter (\<lambda>l. l \<noteq> []) (split_on (CHR 0x0A) txt)"

subsection \<open>Auxiliary notions for the proofs\<close>

text \<open>A path component as the parser keeps it: not empty, not \<open>.\<close>, without a slash.\<close>

definition wf_component :: "string \<Rightarrow> bool" where
  "wf_component x \<longleftrightarrow> x \<noteq> [] \<and> x \<noteq> ''.'' \<and> CHR ''/'' \<notin> set x"

text \<open>What \<open>os.path.join\<close> does when its second argument is a relative name.\<close>

definition glue :: "string \<Rightarrow> string \<Rightarrow> string" where
  "glue s n = (if s = [] \<or> last s = CHR ''/'' then s @ n else s @ CHR ''/'' # n)"

text \<open>Two states that differ at most in the records handed to the logger.\<close>

definition same_but_log :: "('tok, 'cfg) state \<Rightarrow> ('tok, 'cfg) state \<Rightarrow> bool" where
  "same_but_log s u \<longleftrightarrow>
     ns s = ns u \<and> fs s = fs u \<and> labeled_bio_tup_lst s = labeled_bio_tup_lst u"

section \<open>Properties\<close>

subsection \<open>Strings and paths\<close>

lemma split_on_not_Nil: "split_on c s \<noteq> []"
  by (induction s) (auto split: list.splits)

lemma hd_split_on: "hd (split_on c s) = takeWhile (\<lambda>x. x \<noteq> c) s"
  by (induction s) (auto split: list.splits simp: split_on_not_Nil)

lemma split_on_no_sep: "w \<in> set (split_on c s) \<Longrightarrow> c \<notin> set w"
  by (induction s arbitrary: w) (auto split: list.splits if_splits)

lemma split_on_append_sep: "split_on c (a @ c # b) = split_on c a @ split_on c b"
  by (induction a) (auto split: list.splits simp: split_on_not_Nil)

lemma split_on_no_sep_id: "c \<notin> set w \<Longrightarrow> split_on c w = [w]"
  by (induction w) (auto split: list.splits)

lemma ofn_eq: "ofn f = takeWhile (\<lambda>x. x \<noteq> CHR ''.'') (stem f) @ ''.bio.txt''"
  by (simp add: ofn_def hd_split_on)

lemma Path_parts_wf: "x \<in> set (parts (Path s)) \<Longrightarrow> wf_component x"
  by (auto simp: Path_def wf_component_def split: prod.splits dest: split_on_no_sep)

lemma Path_component: "wf_component x \<Longrightarrow> Path x = \<lparr>root = [], parts = [x]\<rparr>"
  by (cases x) (auto simp: Path_def wf_component_def splitroot_def split_on_no_sep_id)

lemma joinpath_component: "wf_component x \<Longrightarrow> joinpath p x = \<lparr>root = root p, parts = parts p @ [x]\<rparr>"
  by (simp add: joinpath_def Path_component)

lemma joinpath_parts_wf: "\<forall>x \<in> set (parts p). wf_component x \<Longrightarrow> x \<in> set (parts (joinpath p k)) \<Longrightarrow> wf_component x"
  by (auto simp: joinpath_def Let_def dest: Path_parts_wf split: if_splits)

lemma stem_of_name_wf: "wf_component nm \<Longrightarrow> CHR ''/'' \<notin> set (stem_of_name nm)"
  by (auto simp: stem_of_name_def Let_def wf_component_def dest: in_set_takeD)

lemma stem_of_name_not_Nil: "nm \<noteq> [] \<Longrightarrow> stem_of_name nm \<noteq> []"
  by (auto simp: stem_of_name_def Let_def)

lemma endswith_slash: "endswith d ''/'' \<longleftrightarrow> d \<noteq> [] \<and> last d = CHR ''/''"
proof (cases d rule: rev_cases)
  case Nil
  then show ?thesis by (simp add: endswith_def)
next
  case (snoc ys y)
  then show ?thesis by (auto simp: endswith_def)
qed

lemma os_path_join_glue: "wf_component n \<Longrightarrow> os_path_join d n = glue d n"
  by (cases n) (auto simp: os_path_join_def glue_def endswith_slash startswith_def wf_component_def)

lemma filter_split_glue:
  assumes "wf_component n"
  shows "filter (\<lambda>x. x \<noteq> [] \<and> x \<noteq> ''.'') (split_on CHR ''/'' (glue s n)) =
         filter (\<lambda>x. x \<noteq> [] \<and> x \<noteq> ''.'') (split_on CHR ''/'' s) @ [n]"
proof (cases s rule: rev_cases)
  case Nil
  with assms show ?thesis by (simp add: glue_def split_on_no_sep_id wf_component_def)
next
  case (snoc ys y)
  from assms have n: "split_on CHR ''/'' n = [n]" "n \<noteq> []" "n \<noteq> ''.''"
    by (simp_all add: split_on_no_sep_id wf_component_def)
  show ?thesis
  proof (cases "y = CHR ''/''")
    case True
    with snoc n show ?thesis
      using split_on_append_sep[of "CHR ''/''" ys n] split_on_append_sep[of "CHR ''/''" ys "[]"]
      by (simp add: glue_def)
  next
    case False
    with snoc n show ?thesis
      using split_on_append_sep[of "CHR ''/''" "ys @ [y]" n]
      by (simp add: glue_def)
  qed
qed

lemma glue_Cons:
  "glue (x # xs) n = x # (if last (x # xs) = CHR ''/'' then xs @ n else xs @ CHR ''/'' # n)"
  by (simp add: glue_def)

lemma glue_Cons_slash: "glue (CHR ''/'' # xs) n = CHR ''/'' # glue xs n"
  by (cases "xs = []") (simp_all add: glue_def)

lemma glue_Nil: "glue [] n = n"
  by (simp add: glue_def)

lemma takeWhile_glue:
  assumes "n \<noteq> []" "hd n \<noteq> CHR ''/''"
  shows "takeWhile (\<lambda>x. x = CHR ''/'') (glue d n) = takeWhile (\<lambda>x. x = CHR ''/'') d"
proof (induction d)
  case Nil
  from assms show ?case by (cases n) (simp_all add: glue_Nil)
next
  case (Cons x xs)
  show ?case
  proof (cases "x = CHR ''/''")
    case True
    with Cons show ?thesis by (simp add: glue_Cons_slash)
  next
    case False
    then show ?thesis by (simp add: glue_Cons)
  qed
qed

lemma dropWhile_glue:
  assumes "n \<noteq> []" "hd n \<noteq> CHR ''/''"
  shows "dropWhile (\<lambda>x. x = CHR ''/'') (glue d n) = glue (dropWhile (\<lambda>x. x = CHR ''/'') d) n"
proof (induction d)
  case Nil
  from assms show ?case by (cases n) (simp_all add: glue_Nil)
next
  case (Cons x xs)
  show ?case
  proof (cases "x = CHR ''/''")
    case True
    with Cons show ?thesis by (simp add: glue_Cons_slash)
  next
    case False
    then show ?thesis by (simp add: glue_Cons)
  qed
qed

lemma length_take_dropWhile:
  "length xs - length (dropWhile P xs) = length (takeWhile P xs)"
proof -
  have "length (takeWhile P xs @ dropWhile P xs) = length xs" by simp
  then have "length (takeWhile P xs) + length (dropWhile P xs) = length xs"
    by (simp only: length_append)
  then show ?thesis by arith
qed

lemma splitroot_alt:
  "splitroot d =
     (if length (takeWhile (\<lambda>x. x = CHR ''/'') d) = 0 then []
      else if length (takeWhile (\<lambda>x. x = CHR ''/'') d) = 2 then ''//'' else ''/'',
      dropWhile (\<lambda>x. x = CHR ''/'') d)"
proof (cases d)
  case Nil
  then show ?thesis by (simp add: splitroot_def)
next
  case (Cons x xs)
  show ?thesis
  proof (cases "x = CHR ''/''")
    case True
    have "splitroot d =
       (if length d - length (dropWhile (\<lambda>x. x = CHR ''/'') d) = 2 then ''//'' else ''/'',
        dropWhile (\<lambda>x. x = CHR ''/'') d)"
      using Cons True by (simp add: splitroot_def Let_def)
    moreover have "length (takeWhile (\<lambda>x. x = CHR ''/'') d) \<noteq> 0"
      using Cons True by simp
    ultimately show ?thesis
      by (simp only: length_take_dropWhile if_False)
  next
    case False
    with Cons show ?thesis by (simp add: splitroot_def)
  qed
qed


lemma Path_alt:
  "Path s = \<lparr>root = fst (splitroot s),
             parts = filter (\<lambda>x. x \<noteq> [] \<and> x \<noteq> ''.'') (split_on CHR ''/'' (snd (splitroot s)))\<rparr>"
  by (simp add: Path_def split: prod.splits)

lemma Path_os_path_join:
  assumes "wf_component n"
  shows "Path (os_path_join d n) = \<lparr>root = root (Path d), parts = parts (Path d) @ [n]\<rparr>"
proof -
  from assms have hn1: "n \<noteq> []"
    by (simp add: wf_component_def)
  from assms have hn2: "hd n \<noteq> CHR ''/''"
    by (cases n) (auto simp: wf_component_def)
  note hn = hn1 hn2
  have sg: "splitroot (glue d n) = (fst (splitroot d), glue (snd (splitroot d)) n)"
    by (simp only: splitroot_alt takeWhile_glue[OF hn] dropWhile_glue[OF hn] fst_conv snd_conv)
  have "Path (glue d n) =
      \<lparr>root = fst (splitroot d),
       parts = filter (\<lambda>x. x \<noteq> [] \<and> x \<noteq> ''.'') (split_on CHR ''/'' (glue (snd (splitroot d)) n))\<rparr>"
    by (simp only: Path_alt sg fst_conv snd_conv)
  also have "\<dots> = \<lparr>root = root (Path d), parts = parts (Path d) @ [n]\<rparr>"
    by (simp only: filter_split_glue[OF assms] Path_alt ppath.simps)
  finally show ?thesis
    by (simp only: os_path_join_glue[OF assms])
qed

subsection \<open>The namespace through a run\<close>

lemma truncate_pof: "cli_args.truncate (a\<lparr>predict_output_file := x\<rparr>) = cli_args.truncate (a :: ('t, 'c) args)"
  by (simp add: cli_args.defs)

lemma try_body_ns:
  "ns (snd (try_body E pr m l t f s)) = ns s \<or>
   ns (snd (try_body E pr m l t f s)) =
     (ns s)\<lparr>predict_output_file := Some (os_path_join (output_dir (ns s)) (ofn f))\<rparr>"
  by (auto simp: try_body_def Let_def split: sum.splits prod.splits)

lemma try_body_cli: "cli_args.truncate (ns (snd (try_body E pr m l t f s))) = cli_args.truncate (ns s)"
  using try_body_ns[of E pr m l t f s] by (auto simp: truncate_pof)

lemma process_file_ns: "ns (snd (process_file E pr m l t f s)) = ns (snd (try_body E pr m l t f s))"
  by (auto simp: process_file_def split: prod.splits option.splits pyerr.splits)

lemma batch_loop_cli:
  "cli_args.truncate (ns (snd (batch_loop E pr m l t fls s))) = cli_args.truncate (ns s)"
proof (induction fls arbitrary: s)
  case Nil
  then show ?case by simp
next
  case (Cons f fls)
  show ?case
  proof (cases "process_file E pr m l t f s")
    case (Pair r s')
    have "cli_args.truncate (ns s') = cli_args.truncate (ns s)"
      using Pair process_file_ns[of E pr m l t f s] try_body_cli[of E pr m l t f s] by simp
    with Pair Cons.IH[of s'] show ?thesis by (cases r) simp_all
  qed
qed

lemma format_pass_ns: "ns (snd (format_pass E s)) = ns s"
  by (auto simp: format_pass_def split: sum.splits)

lemma startup_cli_Inl: "startup E s = Inl (e, s') \<Longrightarrow> cli_args.truncate (ns s') = cli_args.truncate (ns s)"
  by (auto simp: startup_def Let_def cli_args.defs split: sum.splits if_splits option.splits)

lemma startup_cli_Inr: "startup E s = Inr (s', rest) \<Longrightarrow> cli_args.truncate (ns s') = cli_args.truncate (ns s)"
  by (auto simp: startup_def Let_def cli_args.defs split: sum.splits if_splits option.splits)

subsection \<open>The output file name\<close>

lemma stem_of_name_cases:
  "stem_of_name nm = nm \<or>
   (\<exists>A B. nm = A @ CHR ''.'' # B \<and> CHR ''.'' \<notin> set B \<and> stem_of_name nm = A)"
proof (cases "CHR ''.'' \<in> set nm")
  case False
  then show ?thesis by (simp add: stem_of_name_def rfind_def)
next
  case True
  then obtain A B where nm: "nm = A @ CHR ''.'' # B" and B: "CHR ''.'' \<notin> set B"
    using split_list_last[of "CHR ''.''" nm] by auto
  have "takeWhile (\<lambda>x. x \<noteq> CHR ''.'') (rev B @ CHR ''.'' # rev A) =
        rev B @ takeWhile (\<lambda>x. x \<noteq> CHR ''.'') (CHR ''.'' # rev A)"
    using B by (intro takeWhile_append2) auto
  then have "takeWhile (\<lambda>x. x \<noteq> CHR ''.'') (rev nm) = rev B"
    using nm by simp
  then have "rfind CHR ''.'' nm = int (length A)"
    using True nm by (simp add: rfind_def)
  then have "stem_of_name nm = A \<or> stem_of_name nm = nm"
    using nm by (simp add: stem_of_name_def Let_def)
  with nm B show ?thesis by blast
qed

lemma stem_of_name_prefix_dot:
  "takeWhile (\<lambda>x. x \<noteq> CHR ''.'') (stem_of_name nm) = takeWhile (\<lambda>x. x \<noteq> CHR ''.'') nm"
proof -
  from stem_of_name_cases[of nm] show ?thesis
  proof
    assume "stem_of_name nm = nm" then show ?thesis by simp
  next
    assume "\<exists>A B. nm = A @ CHR ''.'' # B \<and> CHR ''.'' \<notin> set B \<and> stem_of_name nm = A"
    then obtain A B where nm: "nm = A @ CHR ''.'' # B" and st: "stem_of_name nm = A" by blast
    show ?thesis
    proof (cases "CHR ''.'' \<in> set A")
      case True
      then have "takeWhile (\<lambda>x. x \<noteq> CHR ''.'') (A @ CHR ''.'' # B) = takeWhile (\<lambda>x. x \<noteq> CHR ''.'') A"
        by (intro takeWhile_append1[where x = "CHR ''.''"]) auto
      with nm st show ?thesis by simp
    next
      case False
      then have "takeWhile (\<lambda>x. x \<noteq> CHR ''.'') (A @ CHR ''.'' # B) =
          A @ takeWhile (\<lambda>x. x \<noteq> CHR ''.'') (CHR ''.'' # B)"
        by (intro takeWhile_append2) auto
      then have "takeWhile (\<lambda>x. x \<noteq> CHR ''.'') (A @ CHR ''.'' # B) = A"
        by simp
      moreover from False have "takeWhile (\<lambda>x. x \<noteq> CHR ''.'') A = A" by auto
      ultimately show ?thesis using nm st by simp
    qed
  qed
qed

lemma stem_of_name_subset: "set (stem_of_name nm) \<subseteq> set nm"
proof -
  from stem_of_name_cases[of nm] show ?thesis
  proof
    assume "stem_of_name nm = nm" then show ?thesis by simp
  next
    assume "\<exists>A B. nm = A @ CHR ''.'' # B \<and> CHR ''.'' \<notin> set B \<and> stem_of_name nm = A"
    then obtain A B where "nm = A @ CHR ''.'' # B" and "stem_of_name nm = A" by blast
    then have "set nm = set (stem_of_name nm) \<union> set (CHR ''.'' # B)"
      by (metis set_append)
    then show ?thesis by blast
  qed
qed

lemma ofn_name: "ofn f = takeWhile (\<lambda>x. x \<noteq> CHR ''.'') (name f) @ ''.bio.txt''"
  by (simp only: ofn_eq stem_def stem_of_name_prefix_dot)

lemma ofn_wf: "CHR ''/'' \<notin> set (name f) \<Longrightarrow> wf_component (ofn f)"
  by (auto simp: ofn_name wf_component_def dest: set_takeWhileD)

lemma glob_txt_name: 
  assumes "f \<in> set (glob_txt (Path d) entries)"
  shows "CHR ''/'' \<notin> set (name f)"
proof -
  from assms obtain e where f: "f = joinpath (Path d) e" by (auto simp: glob_txt_def)
  have "\<forall>x \<in> set (parts (Path d)). wf_component x" by (auto dest: Path_parts_wf)
  then have w: "\<forall>x \<in> set (parts f). wf_component x"
    unfolding f by (auto dest: joinpath_parts_wf)
  show ?thesis
  proof (cases "parts f = []")
    case True then show ?thesis by (simp add: name_def)
  next
    case False
    then have "last (parts f) \<in> set (parts f)" by simp
    with w have "wf_component (name f)" using False by (simp add: name_def)
    then show ?thesis by (simp add: wf_component_def)
  qed
qed

subsection \<open>One file, when no exception is raised\<close>

lemma name_Path_join: "wf_component n \<Longrightarrow> name (Path (os_path_join d n)) = n"
  by (simp add: Path_os_path_join name_def)

lemma parent_Path_join: "wf_component n \<Longrightarrow> parent (Path (os_path_join d n)) = Path d"
  by (simp add: Path_os_path_join parent_def)

lemma ofn_stem_iff: "ofn f = stem f @ ''.bio.txt'' \<longleftrightarrow> CHR ''.'' \<notin> set (stem f)"
proof -
  have "takeWhile (\<lambda>x. x \<noteq> CHR ''.'') (stem f) = stem f \<longleftrightarrow> CHR ''.'' \<notin> set (stem f)"
    by (auto simp: takeWhile_eq_all_conv)
  then show ?thesis by (simp add: ofn_eq)
qed

lemma write_file_Inr:
  "write_file p c f = Inr f' \<Longrightarrow> f' = f\<lparr>files := (files f)(p \<mapsto> c)\<rparr> \<and> parent p \<in> dirs f"
  by (auto simp: write_file_def split: if_splits)

lemma lineage_self: "p \<in> set (lineage p)"
  unfolding lineage_def set_map by (rule image_eqI[where x = "length (parts p)"]) simp_all

lemma mkdir_p_Inr:
  "mkdir_p p f = Inr f1 \<Longrightarrow> files f1 = files f \<and> p \<in> dirs f1 \<and> dirs f \<subseteq> dirs f1"
  using lineage_self[of p] by (auto simp: mkdir_p_def split: if_splits)

lemma task_output_bio_True:
  "task_output_bio E a tests preds True f = Inr (r, f') \<Longrightarrow>
     \<exists>sents p. bio_sents E a tests preds = Inr sents \<and> predict_output_file a = Some p \<and>
       write_file (Path p) (bio_text sents) f = Inr f' \<and> r = PyNone"
  by (auto simp: task_output_bio_def split: sum.splits option.splits)

lemma task_output_bio_False:
  "task_output_bio E a tests preds False f = Inr (r, f') \<Longrightarrow>
     \<exists>sents. bio_sents E a tests preds = Inr sents \<and> r = Sents sents \<and> f' = f"
  by (auto simp: task_output_bio_def split: sum.splits)

lemma try_body_bio_success:
  assumes "use_bio (ns s)" and "try_body E pr m l t f s = (None, s')"
  shows "\<exists>tests preds f1 sents.
           run_prediction E pr m l t f s = Inr (tests, preds) \<and>
           mkdir_p (Path (output_dir (ns s))) (fs s) = Inr f1 \<and>
           bio_sents E ((ns s)\<lparr>predict_output_file := Some (os_path_join (output_dir (ns s)) (ofn f))\<rparr>)
             tests preds = Inr sents \<and>
           s' = s\<lparr>ns := (ns s)\<lparr>predict_output_file := Some (os_path_join (output_dir (ns s)) (ofn f))\<rparr>,
                  fs := f1\<lparr>files := (files f1)(Path (os_path_join (output_dir (ns s)) (ofn f)) \<mapsto>
                                        bio_text sents)\<rparr>\<rparr>"
proof -
  from assms obtain tests preds where rp: "run_prediction E pr m l t f s = Inr (tests, preds)"
    by (auto simp: try_body_def split: sum.splits)
  from assms rp obtain f1 where mk: "mkdir_p (Path (output_dir (ns s))) (fs s) = Inr f1"
    by (auto simp: try_body_def split: sum.splits)
  let ?a = "(ns s)\<lparr>predict_output_file := Some (os_path_join (output_dir (ns s)) (ofn f))\<rparr>"
  from assms rp mk obtain r f2 where ob: "task_output_bio E ?a tests preds True f1 = Inr (r, f2)"
      and s': "s' = s\<lparr>ns := ?a, fs := f2\<rparr>"
    by (auto simp: try_body_def Let_def split: sum.splits)
  from task_output_bio_True[OF ob] obtain sents where
    bs: "bio_sents E ?a tests preds = Inr sents" and
    wf: "write_file (Path (os_path_join (output_dir (ns s)) (ofn f))) (bio_text sents) f1 = Inr f2"
    by auto
  from write_file_Inr[OF wf] s' rp mk bs show ?thesis by auto
qed


lemma try_body_mem_success:
  assumes "\<not> use_bio (ns s)" and "try_body E pr m l t f s = (None, s')"
  shows "\<exists>tests preds sents raw.
           run_prediction E pr m l t f s = Inr (tests, preds) \<and>
           bio_sents E (ns s) tests preds = Inr sents \<and>
           read_text E f (fs s) = Inr raw \<and>
           s' = s\<lparr>labeled_bio_tup_lst :=
                   setitem2 (setitem2 (labeled_bio_tup_lst s) (name f) ''sents'' (Sents sents))
                     (name f) ''raw_text'' (Text raw)\<rparr>"
proof -
  from assms obtain tests preds where rp: "run_prediction E pr m l t f s = Inr (tests, preds)"
    by (auto simp: try_body_def split: sum.splits)
  from assms rp obtain r f1 where ob: "task_output_bio E (ns s) tests preds False (fs s) = Inr (r, f1)"
    by (auto simp: try_body_def split: sum.splits)
  from task_output_bio_False[OF ob] obtain sents where
    bs: "bio_sents E (ns s) tests preds = Inr sents" and r: "r = Sents sents" and f1: "f1 = fs s"
    by auto
  from assms rp ob r f1 obtain raw where rd: "read_text E f (fs s) = Inr raw"
    by (auto simp: try_body_def Let_def split: sum.splits)
  from assms rp ob r f1 rd have
    "s' = s\<lparr>labeled_bio_tup_lst :=
             setitem2 (setitem2 (labeled_bio_tup_lst s) (name f) ''sents'' (Sents sents))
               (name f) ''raw_text'' (Text raw)\<rparr>"
    by (auto simp: try_body_def Let_def)
  with rp bs rd show ?thesis by blast
qed

lemma ofn_not_inj: "\<not> inj ofn"
proof
  assume "inj ofn"
  moreover have "ofn (Path ''in/doc.txt'') = ofn (Path ''in/doc.note.txt'')" by code_simp
  ultimately have "Path ''in/doc.txt'' = Path ''in/doc.note.txt''" by (rule injD)
  then show False by code_simp
qed

lemma setitem2_twice:
  "setitem2 (setitem2 d k a v) k b w =
     d(k \<mapsto> (case d k of None \<Rightarrow> Map.empty | Some entry \<Rightarrow> entry)(a \<mapsto> v, b \<mapsto> w))"
  by (simp add: setitem2_def)

subsection \<open>The directory of the formatted output\<close>

lemma name_Path_no_slash: "CHR ''/'' \<notin> set (name (Path od))"
proof (cases "parts (Path od) = []")
  case True
  then show ?thesis by (simp add: name_def)
next
  case False
  then have "last (parts (Path od)) \<in> set (parts (Path od))" by simp
  then have "wf_component (last (parts (Path od)))" by (rule Path_parts_wf)
  with False show ?thesis by (simp add: name_def wf_component_def)
qed

lemma formatted_key_wf: "wf_component (stem (Path od) @ ''_formatted_output'')"
proof -
  have "CHR ''/'' \<notin> set (stem (Path od))"
    using name_Path_no_slash[of od] stem_of_name_subset[of "name (Path od)"]
    by (auto simp: stem_def)
  then show ?thesis by (simp add: wf_component_def)
qed

lemma derived_dir_sibling:
  "parent (joinpath (parent (Path od)) (stem (Path od) @ ''_formatted_output'')) = parent (Path od) \<and>
   name (joinpath (parent (Path od)) (stem (Path od) @ ''_formatted_output'')) =
     stem (Path od) @ ''_formatted_output''"
  using formatted_key_wf[of od]
  by (simp add: joinpath_component parent_def name_def)

subsection \<open>The loop\<close>

lemma same_but_log_refl: "same_but_log s s"
  by (simp add: same_but_log_def)

lemma same_but_log_update: "same_but_log (s\<lparr>logged := L\<rparr>) s"
  by (simp add: same_but_log_def)

lemma same_but_log_eq: "same_but_log s u \<Longrightarrow> u = s\<lparr>logged := logged u\<rparr>"
  by (simp add: same_but_log_def)

lemma run_prediction_logged:
  "run_prediction E pr m l t f (s\<lparr>logged := L\<rparr>) = run_prediction E pr m l t f s"
  by (simp add: run_prediction_def cong: sum.case_cong)

lemma try_body_logged:
  "try_body E pr m l t f (s\<lparr>logged := L\<rparr>) =
     (fst (try_body E pr m l t f s), (snd (try_body E pr m l t f s))\<lparr>logged := L\<rparr>)"
  by (simp add: try_body_def run_prediction_logged Let_def split: sum.splits prod.splits)

lemma try_body_keeps_log: "logged (snd (try_body E pr m l t f s)) = logged s"
  by (simp add: try_body_def Let_def split: sum.splits prod.splits)

lemma process_file_cases:
  "process_file E pr m l t f s =
     (case fst (try_body E pr m l t f s) of
        None \<Rightarrow> (None, snd (try_body E pr m l t f s))
      | Some (Exception tb) \<Rightarrow>
          (None, (snd (try_body E pr m l t f s))
                   \<lparr>logged := logged s @ error_records f (Exception tb)\<rparr>)
      | Some (NonException tb) \<Rightarrow> (Some (NonException tb), snd (try_body E pr m l t f s)))"
  using try_body_keeps_log[of E pr m l t f s]
  by (cases "try_body E pr m l t f s") (simp add: process_file_def split: option.splits pyerr.splits)

lemma process_file_same_but_log:
  assumes "same_but_log s u"
  shows "fst (process_file E pr m l t f s) = fst (process_file E pr m l t f u) \<and>
         same_but_log (snd (process_file E pr m l t f s)) (snd (process_file E pr m l t f u))"
proof -
  from assms have u: "u = s\<lparr>logged := logged u\<rparr>" by (rule same_but_log_eq)
  have tb: "try_body E pr m l t f u =
      (fst (try_body E pr m l t f s), (snd (try_body E pr m l t f s))\<lparr>logged := logged u\<rparr>)"
    by (subst u) (rule try_body_logged)
  show ?thesis
    unfolding process_file_cases[of E pr m l t f u] process_file_cases[of E pr m l t f s] tb
    by (simp add: same_but_log_def split: option.splits pyerr.splits)
qed

lemma batch_loop_same_but_log:
  "same_but_log s u \<Longrightarrow>
     fst (batch_loop E pr m l t fls s) = fst (batch_loop E pr m l t fls u) \<and>
     same_but_log (snd (batch_loop E pr m l t fls s)) (snd (batch_loop E pr m l t fls u))"
proof (induction fls arbitrary: s u)
  case Nil
  then show ?case by simp
next
  case (Cons f fls)
  obtain r s' where ps: "process_file E pr m l t f s = (r, s')"
    by (cases "process_file E pr m l t f s")
  obtain r' u' where pu: "process_file E pr m l t f u = (r', u')"
    by (cases "process_file E pr m l t f u")
  from process_file_same_but_log[OF Cons.prems, of E pr m l t f] ps pu
  have rr: "r = r'" and su: "same_but_log s' u'" by simp_all
  show ?case
  proof (cases r)
    case None
    with ps pu rr Cons.IH[OF su] show ?thesis by auto
  next
    case (Some e)
    with ps pu rr su show ?thesis by auto
  qed
qed

lemma batch_loop_append:
  "batch_loop E pr m l t (xs @ ys) s =
     (case batch_loop E pr m l t xs s of
        (None, s') \<Rightarrow> batch_loop E pr m l t ys s'
      | (Some e, s') \<Rightarrow> (Some e, s'))"
proof (induction xs arbitrary: s)
  case Nil
  then show ?case by simp
next
  case (Cons x xs)
  show ?case
  proof (cases "process_file E pr m l t x s")
    case (Pair r s')
    with Cons.IH[of s'] show ?thesis by (cases r) simp_all
  qed
qed

lemma process_file_log_grows:
  "\<exists>new. logged (snd (process_file E pr m l t f s)) = logged s @ new"
  using try_body_keeps_log[of E pr m l t f s]
  by (simp add: process_file_cases split: option.splits pyerr.splits)

lemma batch_loop_log_grows:
  "\<exists>new. logged (snd (batch_loop E pr m l t fls s)) = logged s @ new"
proof (induction fls arbitrary: s)
  case Nil
  then show ?case by simp
next
  case (Cons f fls)
  obtain r s' where ps: "process_file E pr m l t f s = (r, s')"
    by (cases "process_file E pr m l t f s")
  from process_file_log_grows[of E pr m l t f s] ps obtain n1 where n1: "logged s' = logged s @ n1"
    by auto
  show ?case
  proof (cases r)
    case None
    from Cons.IH[of s'] obtain n2 where "logged (snd (batch_loop E pr m l t fls s')) = logged s' @ n2"
      by blast
    with None ps n1 show ?thesis by simp
  next
    case (Some e)
    with ps n1 show ?thesis by simp
  qed
qed

lemma process_file_failed_prediction:
  "run_prediction E pr m l t f s = Inl (Exception tb) \<Longrightarrow>
     process_file E pr m l t f s = (None, s\<lparr>logged := logged s @ error_records f (Exception tb)\<rparr>)"
  by (simp add: process_file_def try_body_def)

lemma batch_loop_completes:
  "\<forall>f \<in> set fls. \<forall>u tb. fst (try_body E pr m l t f u) \<noteq> Some (NonException tb) \<Longrightarrow>
     fst (batch_loop E pr m l t fls s) = None"
proof (induction fls arbitrary: s)
  case Nil
  then show ?case by simp
next
  case (Cons f fls)
  from Cons.prems have "\<forall>tb. fst (try_body E pr m l t f s) \<noteq> Some (NonException tb)" by simp
  then have p: "fst (process_file E pr m l t f s) = None"
    by (simp add: process_file_cases split: option.splits pyerr.splits)
  from Cons.prems have "\<forall>f \<in> set fls. \<forall>u tb. fst (try_body E pr m l t f u) \<noteq> Some (NonException tb)"
    by simp
  from Cons.IH[OF this] p show ?case
    by (cases "process_file E pr m l t f s") simp
qed

lemma try_body_acc_other:
  "k \<noteq> name f \<Longrightarrow>
     labeled_bio_tup_lst (snd (try_body E pr m l t f s)) k = labeled_bio_tup_lst s k"
  by (simp add: try_body_def Let_def setitem2_def split: sum.splits prod.splits)

lemma process_file_acc:
  "labeled_bio_tup_lst (snd (process_file E pr m l t f s)) =
     labeled_bio_tup_lst (snd (try_body E pr m l t f s))"
  by (simp add: process_file_cases split: option.splits pyerr.splits)

lemma batch_loop_acc_other:
  "k \<notin> name ` set fls \<Longrightarrow>
     labeled_bio_tup_lst (snd (batch_loop E pr m l t fls s)) k = labeled_bio_tup_lst s k"
proof (induction fls arbitrary: s)
  case Nil
  then show ?case by simp
next
  case (Cons f fls)
  obtain r s' where ps: "process_file E pr m l t f s = (r, s')"
    by (cases "process_file E pr m l t f s")
  from Cons.prems have k: "k \<noteq> name f" and k': "k \<notin> name ` set fls" by auto
  have a: "labeled_bio_tup_lst s' k = labeled_bio_tup_lst s k"
    using process_file_acc[of E pr m l t f s] try_body_acc_other[OF k, of E pr m l t s] ps by simp
  show ?case
  proof (cases r)
    case None
    with ps a Cons.IH[OF k', of s'] show ?thesis by simp
  next
    case (Some e)
    with ps a show ?thesis by simp
  qed
qed

lemma demo_env_only_Exception:
  "fst (try_body demo_env pr m l t f u) \<noteq> Some (NonException tb)"
  by (auto simp: try_body_def run_prediction_def demo_env_def mkdir_p_def task_output_bio_def
        write_file_def read_text_def Let_def
      split: sum.splits option.splits if_splits prod.splits)

subsection \<open>Start-up and the glob\<close>

lemma startup_frame:
  "startup E s0 = Inr (s4, rest) \<Longrightarrow>
     fs s4 = fs s0 \<and> logged s4 = logged s0 \<and>
     preprocessed_text_dir (ns s4) = preprocessed_text_dir (ns s0) \<and>
     do_format (ns s4) = do_format (ns s0)"
  by (auto simp: startup_def Let_def split: sum.splits if_splits option.splits)

lemma glob_txt_empty:
  "\<forall>nm \<in> set entries. \<not> fnmatch_txt nm \<Longrightarrow> glob_txt d entries = []"
  by (simp add: glob_txt_def filter_empty_conv)

subsection \<open>Versions\<close>

lemma cmp_list_nat_3_LT:
  "cmp_list cmp_nat ks [3] = LT \<longleftrightarrow> ks = [] \<or> (\<exists>k rest. ks = k # rest \<and> k < 3)"
proof (cases ks)
  case Nil
  then show ?thesis by simp
next
  case (Cons k rest)
  then show ?thesis
    by (cases rest) (auto simp: cmp_nat_def)
qed

lemma key_release_Cons_nonzero:
  assumes "major \<noteq> 0"
  shows "\<exists>ys. rev (dropWhile (\<lambda>x. x = 0) (rev (major # rest))) = major # ys"
proof -
  have "dropWhile (\<lambda>x. x = 0) (rev rest @ [major]) = dropWhile (\<lambda>x. x = 0) (rev rest) @ [major]"
    using assms by (simp add: dropWhile_append3)
  then have "rev (dropWhile (\<lambda>x. x = 0) (rev (major # rest))) =
      major # rev (dropWhile (\<lambda>x. x = 0) (rev rest))"
    by simp
  then show ?thesis by blast
qed

lemma key_release_Cons_zero:
  "rev (dropWhile (\<lambda>x. x = 0) (rev ((0::nat) # rest))) = [] \<or>
   (\<exists>ys. rev (dropWhile (\<lambda>x. x = 0) (rev (0 # rest))) = 0 # ys)"
proof (cases "dropWhile (\<lambda>x. x = 0) (rev rest) = []")
  case True
  then show ?thesis by (simp add: dropWhile_append)
next
  case False
  then have "dropWhile (\<lambda>x. x = 0) (rev rest @ [0]) = dropWhile (\<lambda>x. x = 0) (rev rest) @ [0]"
    by (auto simp: dropWhile_append dropWhile_eq_Nil_conv)
  then show ?thesis by simp
qed

lemma key_release_LT:
  "cmp_list cmp_nat (key_release v) [3] = LT \<longleftrightarrow> \<not> (\<exists>major rest. release v = major # rest \<and> 3 \<le> major)"
proof (cases "release v")
  case Nil
  then show ?thesis by (simp add: key_release_def)
next
  case (Cons major rest)
  show ?thesis
  proof (cases "major = 0")
    case True
    with Cons key_release_Cons_zero[of rest] show ?thesis
      unfolding cmp_list_nat_3_LT key_release_def by auto
  next
    case False
    from key_release_Cons_nonzero[OF False, of rest] obtain ys where
      "rev (dropWhile (\<lambda>x. x = 0) (rev (major # rest))) = major # ys" by blast
    with Cons show ?thesis
      unfolding cmp_list_nat_3_LT key_release_def by auto
  qed
qed

lemma key_release_v3: "key_release v3_0_0 = [3]"
  by (simp add: key_release_def v3_0_0_def)

lemma version_ge_plain_release:
  assumes "epoch v = 0" "pre v = None" "post v = None" "dev v = None"
  shows "version_ge v v3_0_0 = (\<exists>major rest. release v = major # rest \<and> 3 \<le> major)"
proof -
  have k: "key_pre v = PosInf" "key_post v = NegInf" "key_dev v = PosInf"
    "key_pre v3_0_0 = PosInf" "key_post v3_0_0 = NegInf" "key_dev v3_0_0 = PosInf"
    "key_local v3_0_0 = NegInf" "epoch v3_0_0 = 0"
    using assms by (simp_all add: key_pre_def key_post_def key_dev_def key_local_def v3_0_0_def)
  have loc: "cmp_ext (cmp_list cmp_seg) (key_local v) NegInf \<noteq> LT"
    by (cases "key_local v") simp_all
  have "cmp_version v v3_0_0 = LT \<longleftrightarrow> cmp_list cmp_nat (key_release v) [3] = LT"
    using loc assms(1)
    by (simp add: cmp_version_def k key_release_v3 then_cmp_def cmp_nat_def split: ord3.splits)
  then show ?thesis
    by (simp add: version_ge_def key_release_LT)
qed

subsection \<open>Realignment and the lines of the BIO text\<close>

lemma word_pieces_first_marks:
  "\<forall>w \<in> set sent. tokz (tok_text w) \<noteq> [] \<Longrightarrow>
     length (filter snd (word_pieces tokz sent)) = length sent"
proof (induction sent)
  case Nil
  then show ?case by (simp add: word_pieces_def)
next
  case (Cons w sent)
  from Cons.prems obtain p ps where p: "tokz (tok_text w) = p # ps"
    by (cases "tokz (tok_text w)") auto
  have "filter snd (map (\<lambda>q. (q, False)) ps) = []"
    by (induction ps) simp_all
  with Cons p show ?case
    by (simp add: word_pieces_def)
qed

lemma filter_marks_zip:
  "length p = length ms \<Longrightarrow> length (filter fst (zip ms p)) = length (filter (\<lambda>b. b) ms)"
  by (induction p ms rule: list_induct2) simp_all

lemma length_spec_predict:
  "length (spec_predict model (spec_convert tokz L sent)) = length (take L (word_pieces tokz sent))"
  by (simp add: spec_predict_def spec_convert_def Let_def)

lemma realign_marks:
  "length (realign (spec_convert tokz L sent) (spec_predict model (spec_convert tokz L sent))) =
   length (filter (\<lambda>b. b) (first_marks (spec_convert tokz L sent)))"
proof -
  let ?kept = "take L (word_pieces tokz sent)"
  let ?ft = "spec_convert tokz L sent"
  let ?p = "spec_predict model ?ft"
  have fm: "first_marks ?ft = map snd ?kept @ replicate (L - length ?kept) False"
    by (simp add: spec_convert_def Let_def)
  have lp: "length ?p = length (map snd ?kept)"
    by (simp only: length_spec_predict length_map)
  have z: "zip (first_marks ?ft) ?p = zip (map snd ?kept) ?p"
    unfolding fm using lp by (simp add: zip_append1)
  have "length (realign ?ft ?p) = length (filter fst (zip (map snd ?kept) ?p))"
    by (simp add: realign_def z)
  also have "\<dots> = length (filter (\<lambda>b. b) (map snd ?kept))"
    using lp by (rule filter_marks_zip)
  also have "\<dots> = length (filter (\<lambda>b. b) (first_marks ?ft))"
    unfolding fm by simp
  finally show ?thesis .
qed

lemma set_realign: "set (realign ft p) \<subseteq> set p"
  by (auto simp: realign_def dest: set_zip_rightD)

lemma markers_recover_words_fits:
  assumes "length (word_pieces tokz sent) \<le> L"
    and "\<forall>w \<in> set sent. tokz (tok_text w) \<noteq> []"
  shows "markers_recover_words tokz L sent"
proof -
  have "first_marks (spec_convert tokz L sent) =
        map snd (word_pieces tokz sent) @ replicate (L - length (word_pieces tokz sent)) False"
    using assms(1) by (simp add: spec_convert_def Let_def)
  then have "length (filter (\<lambda>b. b) (first_marks (spec_convert tokz L sent))) =
             length (filter snd (word_pieces tokz sent))"
    by (simp add: filter_map o_def)
  with word_pieces_first_marks[OF assms(2)] show ?thesis
    by (simp add: markers_recover_words_def)
qed

lemma tag_tokens_matched:
  "length lbs = length ws \<Longrightarrow> list_all (\<lambda>lb. i2l lb \<noteq> None) lbs \<Longrightarrow>
     \<exists>r. tag_tokens unmatched i2l ws lbs = Inr r \<and> length r = length ws \<and>
         map tok_text r = map tok_text ws \<and> (\<forall>x \<in> set r. tok_tag x \<in> ran i2l)"
proof (induction lbs ws rule: list_induct2)
  case Nil
  then show ?case by simp
next
  case (Cons lb lbs w ws)
  from Cons.prems obtain tg where tg: "i2l lb = Some tg" by auto
  from Cons.prems have "list_all (\<lambda>lb. i2l lb \<noteq> None) lbs" by simp
  from Cons.IH[OF this] obtain r where r: "tag_tokens unmatched i2l ws lbs = Inr r"
    "length r = length ws" "map tok_text r = map tok_text ws" "\<forall>x \<in> set r. tok_tag x \<in> ran i2l"
    by blast
  from tg have "tg \<in> ran i2l" by (auto simp: ran_def)
  with tg r show ?case by simp
qed

lemma spec_file_sents_matched:
  assumes "\<forall>sent \<in> set tests. markers_recover_words tokz L sent"
    and "\<forall>sent \<in> set tests. indices_resolve tokz model L i2l sent"
  shows "\<exists>sents. spec_file_sents unmatched tokz model L i2l tests = Inr sents \<and>
           map length sents = map length tests \<and>
           map (map tok_text) sents = map (map tok_text) tests \<and>
           (\<forall>s \<in> set sents. \<forall>x \<in> set s. tok_tag x \<in> ran i2l)"
  using assms
proof (induction tests)
  case Nil
  then show ?case by simp
next
  case (Cons sent tests)
  let ?ft = "spec_convert tokz L sent"
  let ?p = "spec_predict model ?ft"
  from Cons.prems have m: "markers_recover_words tokz L sent"
    and i: "indices_resolve tokz model L i2l sent" by simp_all
  from m have len: "length (realign ?ft ?p) = length sent"
    by (simp only: realign_marks markers_recover_words_def)
  from i have "\<forall>lb \<in> set ?p. i2l lb \<noteq> None"
    by (simp add: indices_resolve_def list_all_iff)
  with set_realign[of ?ft ?p] have "list_all (\<lambda>lb. i2l lb \<noteq> None) (realign ?ft ?p)"
    unfolding list_all_iff by blast
  from tag_tokens_matched[OF len this, of unmatched] obtain r where
    r: "tag_tokens unmatched i2l sent (realign ?ft ?p) = Inr r" "length r = length sent"
       "map tok_text r = map tok_text sent" "\<forall>x \<in> set r. tok_tag x \<in> ran i2l"
    by blast
  from Cons.IH Cons.prems obtain sents where
    s: "spec_file_sents unmatched tokz model L i2l tests = Inr sents"
       "map length sents = map length tests"
       "map (map tok_text) sents = map (map tok_text) tests"
       "\<forall>s \<in> set sents. \<forall>x \<in> set s. tok_tag x \<in> ran i2l"
    by auto
  from r s show ?case by (simp add: Let_def)
qed

lemma split_on_lines:
  "\<forall>l \<in> set ls. c \<notin> set l \<Longrightarrow> split_on c (concat (map (\<lambda>l. l @ [c]) ls)) = ls @ [[]]"
proof (induction ls)
  case Nil
  then show ?case by simp
next
  case (Cons l ls)
  have "split_on c (l @ c # concat (map (\<lambda>l. l @ [c]) ls)) =
        split_on c l @ split_on c (concat (map (\<lambda>l. l @ [c]) ls))"
    by (rule split_on_append_sep)
  with Cons show ?case by (simp add: split_on_no_sep_id)
qed

lemma bio_line_not_Nil: "bio_line t \<noteq> []"
  by (simp add: bio_line_def)

lemma filter_bio_lines:
  "filter (\<lambda>l. l \<noteq> []) (bio_lines sents) = concat (map (map bio_line) sents)"
proof (induction sents)
  case Nil
  then show ?case by (simp add: bio_lines_def)
next
  case (Cons sent sents)
  have "filter (\<lambda>l. l \<noteq> []) (map bio_line sent) = map bio_line sent"
    by (induction sent) (simp_all add: bio_line_not_Nil)
  with Cons show ?case by (simp add: bio_lines_def)
qed

lemma non_blank_lines_bio_text:
  assumes "\<forall>sent \<in> set sents. \<forall>t \<in> set sent. CHR 0x0A \<notin> set (tok_text t) \<and> CHR 0x0A \<notin> set (tok_tag t)"
  shows "non_blank_lines (bio_text sents) = concat (map (map bio_line) sents)"
proof -
  have "\<forall>l \<in> set (bio_lines sents). CHR 0x0A \<notin> set l"
    using assms by (auto simp: bio_lines_def bio_line_def)
  then have "split_on (CHR 0x0A) (bio_text sents) = bio_lines sents @ [[]]"
    unfolding bio_text_def by (rule split_on_lines)
  then show ?thesis
    by (simp add: non_blank_lines_def filter_bio_lines)
qed

lemma length_concat_map_map: "length (concat (map (map f) xss)) = sum_list (map length xss)"
  by (induction xss) simp_all

text \<open>
  Outside the first invariant nothing more can be said: with a maximal length of 2 the
  feature of the sentence of four tokens marks two words, and the outcome is whatever
  \<open>_output_bio\<close> does with the two words left over.
\<close>

lemma cut_off_words_unmatched:
  "\<not> markers_recover_words (\<lambda>w. [length w]) 2 demo_sentence \<and>
   spec_file_sents unmatched (\<lambda>w. [length w]) (\<lambda>ids i. 0) 2 [0 \<mapsto> ''O''] [demo_sentence] =
     (case unmatched (drop 2 demo_sentence) [] of
        Inl e \<Rightarrow> Inl e
      | Inr r \<Rightarrow> Inr [take 2 demo_sentence @ r])"
proof -
  have a: "\<not> markers_recover_words (\<lambda>w. [length w]) 2 demo_sentence"
    by code_simp
  have b: "realign (spec_convert (\<lambda>w. [length w]) 2 demo_sentence)
             (spec_predict (\<lambda>ids i. 0) (spec_convert (\<lambda>w. [length w]) 2 demo_sentence)) = [0, 0]"
    by code_simp
  have "spec_file_sents unmatched (\<lambda>w. [length w]) (\<lambda>ids i. 0) 2 [0 \<mapsto> ''O''] [demo_sentence] =
     (case unmatched (drop 2 demo_sentence) [] of
        Inl e \<Rightarrow> Inl e
      | Inr r \<Rightarrow> Inr [take 2 demo_sentence @ r])"
    by (simp add: Let_def b) (simp add: demo_sentence_def split: sum.splits)
  with a show ?thesis by simp
qed

section \<open>The claims\<close>

subsection \<open>C1: where the result of a file goes\<close>

text \<open>
  Claim C1 is about lines 68 to 76, the lines whose indentation is broken: as the source
  stands the branch on \<open>use_bio\<close> never runs, because the file does not compile. With
  the four statements after the \<open>if\<close> as its body, the claim holds: for every input
  file the loop processes (the glob yields it and no exception is raised for it), in
  \<open>use_bio\<close> mode the BIO lines are written to a file directly in \<open>output_dir\<close>,
  and the accumulator is left as it was; otherwise the result of \<open>_output_bio\<close> with
  \<open>save_bio=False\<close> and the raw text of the file are stored in
  \<open>labeled_bio_tup_lst\<close> under the name of the file, and nothing is written.
\<close>

theorem C1_output_by_mode:
  assumes "each_file \<in> set (glob_txt (Path d) entries)"
    and "try_body E pr m l t each_file s = (None, s')"
  shows "(use_bio (ns s) \<longrightarrow>
            (\<exists>tests preds sents.
               run_prediction E pr m l t each_file s = Inr (tests, preds) \<and>
               bio_sents E (ns s') tests preds = Inr sents \<and>
               predict_output_file (ns s') = Some (os_path_join (output_dir (ns s)) (ofn each_file)) \<and>
               files (fs s') (Path (os_path_join (output_dir (ns s)) (ofn each_file))) =
                 Some (bio_text sents) \<and>
               parent (Path (os_path_join (output_dir (ns s)) (ofn each_file))) =
                 Path (output_dir (ns s)) \<and>
               Path (output_dir (ns s)) \<in> dirs (fs s') \<and>
               labeled_bio_tup_lst s' = labeled_bio_tup_lst s)) \<and>
         (\<not> use_bio (ns s) \<longrightarrow>
            (\<exists>tests preds sents raw.
               run_prediction E pr m l t each_file s = Inr (tests, preds) \<and>
               task_output_bio E (ns s) tests preds False (fs s) = Inr (Sents sents, fs s) \<and>
               read_text E each_file (fs s) = Inr raw \<and>
               labeled_bio_tup_lst s' =
                 (labeled_bio_tup_lst s)(name each_file \<mapsto>
                    (case labeled_bio_tup_lst s (name each_file) of
                       None \<Rightarrow> Map.empty | Some entry \<Rightarrow> entry)
                    (''sents'' \<mapsto> Sents sents, ''raw_text'' \<mapsto> Text raw)) \<and>
               fs s' = fs s \<and> ns s' = ns s))"
proof (cases "use_bio (ns s)")
  case True
  from try_body_bio_success[OF True assms(2)] obtain tests preds f1 sents where
    rp: "run_prediction E pr m l t each_file s = Inr (tests, preds)" and
    mk: "mkdir_p (Path (output_dir (ns s))) (fs s) = Inr f1" and
    bs: "bio_sents E ((ns s)\<lparr>predict_output_file := Some (os_path_join (output_dir (ns s)) (ofn each_file))\<rparr>)
           tests preds = Inr sents" and
    s': "s' = s\<lparr>ns := (ns s)\<lparr>predict_output_file := Some (os_path_join (output_dir (ns s)) (ofn each_file))\<rparr>,
                fs := f1\<lparr>files := (files f1)(Path (os_path_join (output_dir (ns s)) (ofn each_file)) \<mapsto>
                                      bio_text sents)\<rparr>\<rparr>"
    by blast
  have w: "wf_component (ofn each_file)"
    using assms(1) by (intro ofn_wf glob_txt_name)
  have pa: "parent (Path (os_path_join (output_dir (ns s)) (ofn each_file))) = Path (output_dir (ns s))"
    using w by (rule parent_Path_join)
  have di: "Path (output_dir (ns s)) \<in> dirs (fs s')"
    using mkdir_p_Inr[OF mk] s' by simp
  have "bio_sents E (ns s') tests preds = Inr sents" using bs s' by simp
  moreover have "predict_output_file (ns s') = Some (os_path_join (output_dir (ns s)) (ofn each_file))"
    using s' by simp
  moreover have "files (fs s') (Path (os_path_join (output_dir (ns s)) (ofn each_file))) = Some (bio_text sents)"
    using s' by simp
  moreover have "labeled_bio_tup_lst s' = labeled_bio_tup_lst s" using s' by simp
  ultimately show ?thesis using True rp pa di by blast
next
  case False
  from try_body_mem_success[OF False assms(2)] obtain tests preds sents raw where
    rp: "run_prediction E pr m l t each_file s = Inr (tests, preds)" and
    bs: "bio_sents E (ns s) tests preds = Inr sents" and
    rd: "read_text E each_file (fs s) = Inr raw" and
    s': "s' = s\<lparr>labeled_bio_tup_lst :=
                   setitem2 (setitem2 (labeled_bio_tup_lst s) (name each_file) ''sents'' (Sents sents))
                     (name each_file) ''raw_text'' (Text raw)\<rparr>"
    by blast
  have ob: "task_output_bio E (ns s) tests preds False (fs s) = Inr (Sents sents, fs s)"
    using bs by (simp add: task_output_bio_def)
  have acc: "labeled_bio_tup_lst s' =
                 (labeled_bio_tup_lst s)(name each_file \<mapsto>
                    (case labeled_bio_tup_lst s (name each_file) of
                       None \<Rightarrow> Map.empty | Some entry \<Rightarrow> entry)
                    (''sents'' \<mapsto> Sents sents, ''raw_text'' \<mapsto> Text raw))"
    using s' by (simp add: setitem2_twice)
  have "fs s' = fs s" "ns s' = ns s" using s' by simp_all
  with False rp ob rd acc show ?thesis by blast
qed

text \<open>C1, an instance: \<open>doc.txt\<close> of the concrete run, in each of the two modes.\<close>

theorem C1_witness:
  "Path ''in/doc.txt'' \<in> set (glob_txt (Path ''in'') (scandir demo_env demo_fs (Path ''in''))) \<and>
   use_bio (ns (demo_state True 0)) \<and>
   fst (try_body demo_env demo_processor () demo_l2i () (Path ''in/doc.txt'') (demo_state True 0)) = None \<and>
   (\<exists>sents. files (fs (snd (try_body demo_env demo_processor () demo_l2i () (Path ''in/doc.txt'')
                              (demo_state True 0))))
              (Path (os_path_join ''out'' (ofn (Path ''in/doc.txt'')))) = Some (bio_text sents)) \<and>
   parent (Path (os_path_join ''out'' (ofn (Path ''in/doc.txt'')))) = Path ''out'' \<and>
   \<not> use_bio (ns (demo_state False 1)) \<and>
   fst (try_body demo_env demo_processor () demo_l2i () (Path ''in/doc.txt'') (demo_state False 1)) = None \<and>
   (\<exists>sents raw. labeled_bio_tup_lst (snd (try_body demo_env demo_processor () demo_l2i ()
                     (Path ''in/doc.txt'') (demo_state False 1))) =
                  [''doc.txt'' \<mapsto> [''sents'' \<mapsto> Sents sents, ''raw_text'' \<mapsto> Text raw]])"
proof -
  have g: "Path ''in/doc.txt'' \<in> set (glob_txt (Path ''in'') (scandir demo_env demo_fs (Path ''in'')))"
    by code_simp
  have u1: "use_bio (ns (demo_state True 0))" and u2: "\<not> use_bio (ns (demo_state False 1))"
    by code_simp+
  have o: "output_dir (ns (demo_state True 0)) = ''out''" by code_simp
  have n: "name (Path ''in/doc.txt'') = ''doc.txt''" by code_simp
  have e: "labeled_bio_tup_lst (demo_state False 1) = Map.empty"
    by (simp add: demo_state_def initial_state_def)
  have t1: "fst (try_body demo_env demo_processor () demo_l2i () (Path ''in/doc.txt'') (demo_state True 0)) = None"
    by code_simp
  have t2: "fst (try_body demo_env demo_processor () demo_l2i () (Path ''in/doc.txt'') (demo_state False 1)) = None"
    by code_simp
  from t1 have t1': "try_body demo_env demo_processor () demo_l2i () (Path ''in/doc.txt'') (demo_state True 0) =
      (None, snd (try_body demo_env demo_processor () demo_l2i () (Path ''in/doc.txt'') (demo_state True 0)))"
    by (simp add: prod_eq_iff)
  from t2 have t2': "try_body demo_env demo_processor () demo_l2i () (Path ''in/doc.txt'') (demo_state False 1) =
      (None, snd (try_body demo_env demo_processor () demo_l2i () (Path ''in/doc.txt'') (demo_state False 1)))"
    by (simp add: prod_eq_iff)
  from C1_output_by_mode[OF g t1'] u1 o have a:
    "(\<exists>sents. files (fs (snd (try_body demo_env demo_processor () demo_l2i () (Path ''in/doc.txt'')
                              (demo_state True 0))))
              (Path (os_path_join ''out'' (ofn (Path ''in/doc.txt'')))) = Some (bio_text sents))"
    "parent (Path (os_path_join ''out'' (ofn (Path ''in/doc.txt'')))) = Path ''out''"
    by auto
  from C1_output_by_mode[OF g t2'] u2 n e have b:
    "\<exists>sents raw. labeled_bio_tup_lst (snd (try_body demo_env demo_processor () demo_l2i ()
                     (Path ''in/doc.txt'') (demo_state False 1))) =
                  [''doc.txt'' \<mapsto> [''sents'' \<mapsto> Sents sents, ''raw_text'' \<mapsto> Text raw]]"
    by auto
  from g u1 u2 t1 t2 a b show ?thesis by blast
qed

subsection \<open>C2: an exception in one file\<close>

text \<open>
  Claim C2, in three parts. First: when the \<open>try\<close> body of a file raises an exception of
  class \<open>Exception\<close>, at whatever stage, the handler hands two records to the logger, the
  message with the file's name and the traceback, and the loop goes on with the next
  file. Second: when a file fails in reading, conversion or prediction, and the loop
  over the other files \<open>xs @ ys\<close> ends normally, then the loop over all of them ends
  normally too, with the same namespace, the same file system and the same accumulator
  as without the bad file, and with the two records of the bad file in the log. Third:
  when no \<open>try\<close> body raises an exception outside the class \<open>Exception\<close>, the loop over
  any list of files ends normally.
\<close>

theorem C2_fault_isolation:
  "(try_body E pr m l t bad s = (Some (Exception tb), s1) \<longrightarrow>
      batch_loop E pr m l t (bad # rest) s =
        batch_loop E pr m l t rest
          (s1\<lparr>logged := logged s @
               [(ERROR, ''Encountered an error when processing predictions for file: '' @ name bad),
                (ERROR, tb)]\<rparr>)) \<and>
   (run_prediction E pr m l t bad (snd (batch_loop E pr m l t xs s)) = Inl (Exception tb) \<and>
    fst (batch_loop E pr m l t (xs @ ys) s) = None \<longrightarrow>
      fst (batch_loop E pr m l t (xs @ bad # ys) s) = None \<and>
      ns (snd (batch_loop E pr m l t (xs @ bad # ys) s)) =
        ns (snd (batch_loop E pr m l t (xs @ ys) s)) \<and>
      fs (snd (batch_loop E pr m l t (xs @ bad # ys) s)) =
        fs (snd (batch_loop E pr m l t (xs @ ys) s)) \<and>
      labeled_bio_tup_lst (snd (batch_loop E pr m l t (xs @ bad # ys) s)) =
        labeled_bio_tup_lst (snd (batch_loop E pr m l t (xs @ ys) s)) \<and>
      set (error_records bad (Exception tb)) \<subseteq>
        set (logged (snd (batch_loop E pr m l t (xs @ bad # ys) s)))) \<and>
   ((\<forall>f \<in> set fls. \<forall>u tb'. fst (try_body E pr m l t f u) \<noteq> Some (NonException tb')) \<longrightarrow>
      fst (batch_loop E pr m l t fls s) = None)"
proof -
  have A: "try_body E pr m l t bad s = (Some (Exception tb), s1) \<longrightarrow>
      batch_loop E pr m l t (bad # rest) s =
        batch_loop E pr m l t rest
          (s1\<lparr>logged := logged s @
               [(ERROR, ''Encountered an error when processing predictions for file: '' @ name bad),
                (ERROR, tb)]\<rparr>)"
  proof
    assume tb: "try_body E pr m l t bad s = (Some (Exception tb), s1)"
    then have "process_file E pr m l t bad s =
        (None, s1\<lparr>logged := logged s @ error_records bad (Exception tb)\<rparr>)"
      by (simp add: process_file_cases)
    then show "batch_loop E pr m l t (bad # rest) s =
          batch_loop E pr m l t rest
            (s1\<lparr>logged := logged s @
                 [(ERROR, ''Encountered an error when processing predictions for file: '' @ name bad),
                  (ERROR, tb)]\<rparr>)"
      by (simp add: error_records_def)
  qed
  have B: "run_prediction E pr m l t bad (snd (batch_loop E pr m l t xs s)) = Inl (Exception tb) \<and>
    fst (batch_loop E pr m l t (xs @ ys) s) = None \<longrightarrow>
      fst (batch_loop E pr m l t (xs @ bad # ys) s) = None \<and>
      ns (snd (batch_loop E pr m l t (xs @ bad # ys) s)) =
        ns (snd (batch_loop E pr m l t (xs @ ys) s)) \<and>
      fs (snd (batch_loop E pr m l t (xs @ bad # ys) s)) =
        fs (snd (batch_loop E pr m l t (xs @ ys) s)) \<and>
      labeled_bio_tup_lst (snd (batch_loop E pr m l t (xs @ bad # ys) s)) =
        labeled_bio_tup_lst (snd (batch_loop E pr m l t (xs @ ys) s)) \<and>
      set (error_records bad (Exception tb)) \<subseteq>
        set (logged (snd (batch_loop E pr m l t (xs @ bad # ys) s)))"
  proof
    assume a: "run_prediction E pr m l t bad (snd (batch_loop E pr m l t xs s)) = Inl (Exception tb) \<and>
      fst (batch_loop E pr m l t (xs @ ys) s) = None"
    obtain rx sx where bx: "batch_loop E pr m l t xs s = (rx, sx)"
      by (cases "batch_loop E pr m l t xs s")
    from a bx have rx: "rx = None"
      by (cases rx) (simp_all add: batch_loop_append)
    from a bx have rp: "run_prediction E pr m l t bad sx = Inl (Exception tb)" by simp
    let ?sx' = "sx\<lparr>logged := logged sx @ error_records bad (Exception tb)\<rparr>"
    have wo: "batch_loop E pr m l t (xs @ ys) s = batch_loop E pr m l t ys sx"
      using bx rx by (simp add: batch_loop_append)
    have w: "batch_loop E pr m l t (xs @ bad # ys) s = batch_loop E pr m l t ys ?sx'"
      using bx rx process_file_failed_prediction[OF rp] by (simp add: batch_loop_append)
    have sb: "same_but_log ?sx' sx" by (rule same_but_log_update)
    from batch_loop_same_but_log[OF sb, of E pr m l t ys]
    have f: "fst (batch_loop E pr m l t ys ?sx') = fst (batch_loop E pr m l t ys sx)"
      and e: "same_but_log (snd (batch_loop E pr m l t ys ?sx')) (snd (batch_loop E pr m l t ys sx))"
      by simp_all
    from batch_loop_log_grows[of E pr m l t ys ?sx'] obtain new where
      "logged (snd (batch_loop E pr m l t ys ?sx')) = logged ?sx' @ new" by blast
    then have lg: "set (error_records bad (Exception tb)) \<subseteq> set (logged (snd (batch_loop E pr m l t ys ?sx')))"
      by auto
    from a f e lg show "fst (batch_loop E pr m l t (xs @ bad # ys) s) = None \<and>
        ns (snd (batch_loop E pr m l t (xs @ bad # ys) s)) =
          ns (snd (batch_loop E pr m l t (xs @ ys) s)) \<and>
        fs (snd (batch_loop E pr m l t (xs @ bad # ys) s)) =
          fs (snd (batch_loop E pr m l t (xs @ ys) s)) \<and>
        labeled_bio_tup_lst (snd (batch_loop E pr m l t (xs @ bad # ys) s)) =
          labeled_bio_tup_lst (snd (batch_loop E pr m l t (xs @ ys) s)) \<and>
        set (error_records bad (Exception tb)) \<subseteq>
          set (logged (snd (batch_loop E pr m l t (xs @ bad # ys) s)))"
      unfolding w wo by (simp add: same_but_log_def)
  qed
  have C: "(\<forall>f \<in> set fls. \<forall>u tb'. fst (try_body E pr m l t f u) \<noteq> Some (NonException tb')) \<longrightarrow>
      fst (batch_loop E pr m l t fls s) = None"
    using batch_loop_completes[of fls E pr m l t s] by blast
  show ?thesis
    by (rule conjI, rule A, rule conjI, rule B, rule C)
qed

text \<open>
  C2, an instance: \<open>bad.txt\<close> between \<open>doc.txt\<close> and \<open>doc.note.txt\<close> in the concrete
  run, and the whole input directory.
\<close>

theorem C2_witness:
  "fst (batch_loop demo_env demo_processor () demo_l2i ()
          (glob_txt (Path ''in'') (scandir demo_env demo_fs (Path ''in''))) (demo_state True 0)) = None \<and>
   run_prediction demo_env demo_processor () demo_l2i () (Path ''in/bad.txt'')
     (snd (batch_loop demo_env demo_processor () demo_l2i () [Path ''in/doc.txt''] (demo_state True 0))) =
     Inl (Exception ''ValueError'') \<and>
   fst (batch_loop demo_env demo_processor () demo_l2i ()
          ([Path ''in/doc.txt''] @ [Path ''in/doc.note.txt'']) (demo_state True 0)) = None \<and>
   fst (batch_loop demo_env demo_processor () demo_l2i ()
          ([Path ''in/doc.txt''] @ Path ''in/bad.txt'' # [Path ''in/doc.note.txt'']) (demo_state True 0)) = None \<and>
   fs (snd (batch_loop demo_env demo_processor () demo_l2i ()
          ([Path ''in/doc.txt''] @ Path ''in/bad.txt'' # [Path ''in/doc.note.txt'']) (demo_state True 0))) =
   fs (snd (batch_loop demo_env demo_processor () demo_l2i ()
          ([Path ''in/doc.txt''] @ [Path ''in/doc.note.txt'']) (demo_state True 0))) \<and>
   set (error_records (Path ''in/bad.txt'') (Exception ''ValueError'')) \<subseteq>
     set (logged (snd (batch_loop demo_env demo_processor () demo_l2i ()
          ([Path ''in/doc.txt''] @ Path ''in/bad.txt'' # [Path ''in/doc.note.txt'']) (demo_state True 0)))) \<and>
   batch_loop demo_env demo_processor () demo_l2i () (Path ''in/bad.txt'' # [Path ''in/doc.txt''])
       (demo_state True 0) =
     batch_loop demo_env demo_processor () demo_l2i () [Path ''in/doc.txt'']
       ((demo_state True 0)\<lparr>logged := logged (demo_state True 0) @
          [(ERROR, ''Encountered an error when processing predictions for file: '' @
                     name (Path ''in/bad.txt'')),
           (ERROR, ''ValueError'')]\<rparr>)"
proof -
  note T = C2_fault_isolation[where E = demo_env and pr = demo_processor and m = "()" and
      l = demo_l2i and t = "()" and bad = "Path ''in/bad.txt''" and s = "demo_state True 0" and
      tb = "''ValueError''" and ?s1.0 = "demo_state True 0" and rest = "[Path ''in/doc.txt'']" and
      xs = "[Path ''in/doc.txt'']" and ys = "[Path ''in/doc.note.txt'']" and
      fls = "glob_txt (Path ''in'') (scandir demo_env demo_fs (Path ''in''))"]
  have r0: "run_prediction demo_env demo_processor () demo_l2i () (Path ''in/bad.txt'') (demo_state True 0) =
      Inl (Exception ''ValueError'')"
    by code_simp
  then have h1: "try_body demo_env demo_processor () demo_l2i () (Path ''in/bad.txt'') (demo_state True 0) =
      (Some (Exception ''ValueError''), demo_state True 0)"
    by (simp add: try_body_def)
  have h2: "run_prediction demo_env demo_processor () demo_l2i () (Path ''in/bad.txt'')
     (snd (batch_loop demo_env demo_processor () demo_l2i () [Path ''in/doc.txt''] (demo_state True 0))) =
     Inl (Exception ''ValueError'')"
    by code_simp
  have h3: "fst (batch_loop demo_env demo_processor () demo_l2i ()
          ([Path ''in/doc.txt''] @ [Path ''in/doc.note.txt'']) (demo_state True 0)) = None"
    by code_simp
  have h4: "\<forall>f \<in> set (glob_txt (Path ''in'') (scandir demo_env demo_fs (Path ''in''))).
      \<forall>u tb'. fst (try_body demo_env demo_processor () demo_l2i () f u) \<noteq> Some (NonException tb')"
    by (simp add: demo_env_only_Exception)
  from T h1 have c1: "batch_loop demo_env demo_processor () demo_l2i () (Path ''in/bad.txt'' # [Path ''in/doc.txt''])
       (demo_state True 0) =
     batch_loop demo_env demo_processor () demo_l2i () [Path ''in/doc.txt'']
       ((demo_state True 0)\<lparr>logged := logged (demo_state True 0) @
          [(ERROR, ''Encountered an error when processing predictions for file: '' @
                     name (Path ''in/bad.txt'')),
           (ERROR, ''ValueError'')]\<rparr>)"
    by blast
  from T h2 h3 have c2: "fst (batch_loop demo_env demo_processor () demo_l2i ()
          ([Path ''in/doc.txt''] @ Path ''in/bad.txt'' # [Path ''in/doc.note.txt'']) (demo_state True 0)) = None"
    "fs (snd (batch_loop demo_env demo_processor () demo_l2i ()
          ([Path ''in/doc.txt''] @ Path ''in/bad.txt'' # [Path ''in/doc.note.txt'']) (demo_state True 0))) =
     fs (snd (batch_loop demo_env demo_processor () demo_l2i ()
          ([Path ''in/doc.txt''] @ [Path ''in/doc.note.txt'']) (demo_state True 0)))"
    "set (error_records (Path ''in/bad.txt'') (Exception ''ValueError'')) \<subseteq>
     set (logged (snd (batch_loop demo_env demo_processor () demo_l2i ()
          ([Path ''in/doc.txt''] @ Path ''in/bad.txt'' # [Path ''in/doc.note.txt'']) (demo_state True 0))))"
    by blast+
  from T h4 have c3: "fst (batch_loop demo_env demo_processor () demo_l2i ()
          (glob_txt (Path ''in'') (scandir demo_env demo_fs (Path ''in''))) (demo_state True 0)) = None"
    by blast
  show ?thesis
    by (intro conjI c1 c2 c3 h2 h3)
qed

subsection \<open>C3: the name of the BIO file\<close>

text \<open>
  Claim C3 says that the BIO file written for an input file is named by the stem of the
  input file followed by \<open>.bio.txt\<close>. For \<open>doc.note.txt\<close> the stem is \<open>doc.note\<close>, so
  the claim gives \<open>doc.note.bio.txt\<close>; the script writes \<open>out/doc.bio.txt\<close> and nothing
  at \<open>out/doc.note.bio.txt\<close>.
\<close>

theorem C3_counterexample:
  "predict_output_file (ns (snd (try_body demo_env demo_processor () demo_l2i ()
      (Path ''in/doc.note.txt'') (demo_state True 0)))) = Some ''out/doc.bio.txt'' \<and>
   stem (Path ''in/doc.note.txt'') @ ''.bio.txt'' = ''doc.note.bio.txt'' \<and>
   files (fs (snd (try_body demo_env demo_processor () demo_l2i ()
      (Path ''in/doc.note.txt'') (demo_state True 0)))) (Path ''out/doc.note.bio.txt'') = None \<and>
   files (fs (snd (try_body demo_env demo_processor () demo_l2i ()
      (Path ''in/doc.note.txt'') (demo_state True 0)))) (Path ''out/doc.bio.txt'') \<noteq> None"
  by code_simp

text \<open>
  Claim C3, amended: for every input file the glob yields, in \<open>use_bio\<close> mode and when no
  exception is raised for the file, the BIO file is the one \<open>args.predict_output_file\<close>
  names; its name is the part of the input file's stem before the first dot, followed
  by \<open>.bio.txt\<close>. That is the stem followed by \<open>.bio.txt\<close> exactly when the stem
  contains no dot.
\<close>

theorem C3_output_file_name:
  assumes "each_file \<in> set (glob_txt (Path d) entries)"
    and "use_bio (ns s)"
    and "try_body E pr m l t each_file s = (None, s')"
  shows "predict_output_file (ns s') = Some (os_path_join (output_dir (ns s)) (ofn each_file)) \<and>
         files (fs s') (Path (os_path_join (output_dir (ns s)) (ofn each_file))) \<noteq> None \<and>
         name (Path (os_path_join (output_dir (ns s)) (ofn each_file))) =
           takeWhile (\<lambda>c. c \<noteq> CHR ''.'') (stem each_file) @ ''.bio.txt'' \<and>
         ((takeWhile (\<lambda>c. c \<noteq> CHR ''.'') (stem each_file) @ ''.bio.txt'' =
             stem each_file @ ''.bio.txt'') = (CHR ''.'' \<notin> set (stem each_file)))"
proof -
  from try_body_bio_success[OF assms(2,3)] obtain f1 sents where
    s': "s' = s\<lparr>ns := (ns s)\<lparr>predict_output_file := Some (os_path_join (output_dir (ns s)) (ofn each_file))\<rparr>,
                fs := f1\<lparr>files := (files f1)(Path (os_path_join (output_dir (ns s)) (ofn each_file)) \<mapsto>
                                      bio_text sents)\<rparr>\<rparr>"
    by blast
  have w: "wf_component (ofn each_file)"
    using assms(1) by (intro ofn_wf glob_txt_name)
  have n: "name (Path (os_path_join (output_dir (ns s)) (ofn each_file))) = ofn each_file"
    using w by (rule name_Path_join)
  have i: "(takeWhile (\<lambda>c. c \<noteq> CHR ''.'') (stem each_file) @ ''.bio.txt'' =
             stem each_file @ ''.bio.txt'') = (CHR ''.'' \<notin> set (stem each_file))"
    using ofn_stem_iff[of each_file] by (simp only: ofn_eq)
  show ?thesis
    using s' n i by (simp add: ofn_eq)
qed

text \<open>C3, an instance: \<open>doc.note.txt\<close> of the concrete run.\<close>

theorem C3_witness:
  "Path ''in/doc.note.txt'' \<in> set (glob_txt (Path ''in'') (scandir demo_env demo_fs (Path ''in''))) \<and>
   use_bio (ns (demo_state True 0)) \<and>
   fst (try_body demo_env demo_processor () demo_l2i () (Path ''in/doc.note.txt'') (demo_state True 0)) = None \<and>
   name (Path (os_path_join (output_dir (ns (demo_state True 0))) (ofn (Path ''in/doc.note.txt'')))) =
     ''doc.bio.txt''"
proof -
  have h1: "Path ''in/doc.note.txt'' \<in> set (glob_txt (Path ''in'') (scandir demo_env demo_fs (Path ''in'')))"
    by code_simp
  have h2: "use_bio (ns (demo_state True 0))"
    by code_simp
  have h3: "fst (try_body demo_env demo_processor () demo_l2i () (Path ''in/doc.note.txt'') (demo_state True 0)) = None"
    by code_simp
  then have h3': "try_body demo_env demo_processor () demo_l2i () (Path ''in/doc.note.txt'') (demo_state True 0) =
      (None, snd (try_body demo_env demo_processor () demo_l2i () (Path ''in/doc.note.txt'') (demo_state True 0)))"
    by (simp add: prod_eq_iff)
  have e: "takeWhile (\<lambda>c. c \<noteq> CHR ''.'') (stem (Path ''in/doc.note.txt'')) @ ''.bio.txt'' = ''doc.bio.txt''"
    by code_simp
  from C3_output_file_name[OF h1 h2 h3'] h1 h2 h3 e show ?thesis by simp
qed

subsection \<open>C4: the namespace after argument parsing\<close>

text \<open>
  Claim C4 says that no operation after argument parsing modifies any field of the
  configuration object. The script does modify it: \<open>main\<close> attaches the label
  vocabulary, its inverse, the tokenizer, the model configuration and \<open>use_crf\<close> to
  \<open>args\<close> (lines 35 to 45) and, in \<open>use_bio\<close> mode, sets \<open>args.predict_output_file\<close> for
  every file (line 71). In the concrete run with \<open>use_bio\<close>, \<open>label2idx\<close> and
  \<open>predict_output_file\<close> are unset before \<open>main\<close> and set after it.
\<close>

theorem C4_counterexample:
  "label2idx (ns (demo_state True 0)) = None \<and>
   label2idx (ns (snd (main demo_env (demo_state True 0)))) =
     Some [(''O'', 0), (''B-PER'', 1), (''B-LOC'', 2)] \<and>
   predict_output_file (ns (demo_state True 0)) = None \<and>
   predict_output_file (ns (snd (main demo_env (demo_state True 0)))) = Some ''out/latin.bio.txt''"
  by code_simp

text \<open>
  Claim C4, amended: what \<open>main\<close> never modifies is the part of the namespace that was
  parsed from the command line. Whatever the collaborators do and however the run ends,
  the command-line fields of \<open>args\<close> after \<open>main\<close> are those before it.
\<close>

theorem C4_command_line_never_modified: "cli_args.truncate (ns (snd (main E s))) = cli_args.truncate (ns s)"
proof (cases "startup E s")
  case (Inl a)
  then show ?thesis by (cases a) (auto simp: main_def dest: startup_cli_Inl)
next
  case (Inr b)
  obtain s4 pr m l t where b: "b = (s4, pr, m, l, t)" by (cases b) auto
  let ?s5 = "s4\<lparr>labeled_bio_tup_lst := Map.empty\<rparr>"
  let ?fl = "glob_txt (Path (preprocessed_text_dir (ns ?s5))) (scandir E (fs ?s5) (Path (preprocessed_text_dir (ns ?s5))))"
  have c4: "cli_args.truncate (ns ?s5) = cli_args.truncate (ns s)"
    using Inr b startup_cli_Inr[of E s s4] by simp
  obtain r s6 where l: "batch_loop E pr m l t ?fl ?s5 = (r, s6)" by (cases "batch_loop E pr m l t ?fl ?s5")
  have c6: "cli_args.truncate (ns s6) = cli_args.truncate (ns s)"
    using batch_loop_cli[of E pr m l t ?fl ?s5] l c4 by simp
  have "main E s = (case r of None \<Rightarrow> format_pass E s6 | Some e \<Rightarrow> (Some e, s6))"
    using Inr b l by (simp add: main_def Let_def split: option.splits)
  then show ?thesis using c6 format_pass_ns[of E s6] by (cases r) simp_all
qed


text \<open>C4, an instance: after the concrete run the command line is the one that was parsed.\<close>

theorem C4_witness:
  "cli_args.truncate (ns (snd (main demo_env (demo_state True 0)))) = demo_cli True 0"
  using C4_command_line_never_modified [of demo_env "demo_state True 0"]
  by (simp add: demo_state_def initial_state_def cli_args.defs demo_cli_def)

subsection \<open>C5: the directory handed to the format converter\<close>

text \<open>
  Claim C5: when \<open>do_format\<close> is not zero the format converter is called, after its
  output directory has been made. With no \<open>output_dir_brat\<close> that directory is the
  parent of \<open>output_dir\<close> joined with the stem of \<open>output_dir\<close> followed by
  \<open>_formatted_output\<close>: it has the parent of \<open>output_dir\<close> and that name. With an
  \<open>output_dir_brat\<close> (a string that is not empty, which is what the condition of line
  82 tests) it is that path.
\<close>

theorem C5_formatted_output_directory:
  assumes "do_format (ns s) \<noteq> 0"
  shows "(output_dir_brat (ns s) = None \<longrightarrow>
            fc_output_dir (format_kwargs s) =
              joinpath (parent (Path (output_dir (ns s))))
                (stem (Path (output_dir (ns s))) @ ''_formatted_output'') \<and>
            parent (fc_output_dir (format_kwargs s)) = parent (Path (output_dir (ns s))) \<and>
            name (fc_output_dir (format_kwargs s)) =
              stem (Path (output_dir (ns s))) @ ''_formatted_output'') \<and>
         (\<forall>brat. output_dir_brat (ns s) = Some brat \<and> brat \<noteq> [] \<longrightarrow>
            fc_output_dir (format_kwargs s) = Path brat) \<and>
         format_pass E s =
           (case mkdir_p (fc_output_dir (format_kwargs s)) (fs s) of
              Inl e \<Rightarrow> (Some e, s)
            | Inr f1 \<Rightarrow>
                (case format_converter E (format_kwargs s) f1 of
                   Inl e \<Rightarrow> (Some e, s\<lparr>fs := f1\<rparr>)
                 | Inr f2 \<Rightarrow> (None, s\<lparr>fs := f2\<rparr>)))"
proof -
  have a: "output_dir_brat (ns s) = None \<longrightarrow>
            fc_output_dir (format_kwargs s) =
              joinpath (parent (Path (output_dir (ns s))))
                (stem (Path (output_dir (ns s))) @ ''_formatted_output'')"
    by (simp add: format_kwargs_def output_formatted_dir_def)
  have b: "\<forall>brat. output_dir_brat (ns s) = Some brat \<and> brat \<noteq> [] \<longrightarrow>
            fc_output_dir (format_kwargs s) = Path brat"
    by (simp add: format_kwargs_def output_formatted_dir_def)
  have c: "format_pass E s =
           (case mkdir_p (fc_output_dir (format_kwargs s)) (fs s) of
              Inl e \<Rightarrow> (Some e, s)
            | Inr f1 \<Rightarrow>
                (case format_converter E (format_kwargs s) f1 of
                   Inl e \<Rightarrow> (Some e, s\<lparr>fs := f1\<rparr>)
                 | Inr f2 \<Rightarrow> (None, s\<lparr>fs := f2\<rparr>)))"
    using assms by (simp add: format_pass_def format_kwargs_def)
  from a b c derived_dir_sibling[of "output_dir (ns s)"] show ?thesis by simp
qed

text \<open>C5, an instance: the concrete run without and with \<open>output_dir_brat\<close>.\<close>

theorem C5_witness:
  "do_format (ns (demo_state False 1)) \<noteq> 0 \<and>
   output_dir_brat (ns (demo_state False 1)) = None \<and>
   fc_output_dir (format_kwargs (demo_state False 1)) = Path ''out_formatted_output'' \<and>
   parent (fc_output_dir (format_kwargs (demo_state False 1))) = parent (Path ''out'') \<and>
   name (fc_output_dir (format_kwargs (demo_state False 1))) = ''out_formatted_output'' \<and>
   fc_output_dir (format_kwargs
     ((demo_state False 1)\<lparr>ns := (ns (demo_state False 1))\<lparr>output_dir_brat := Some ''brat''\<rparr>\<rparr>)) =
     Path ''brat''"
proof -
  have h': "do_format (ns ((demo_state False 1)\<lparr>ns := (ns (demo_state False 1))\<lparr>output_dir_brat := Some ''brat''\<rparr>\<rparr>)) \<noteq> 0"
    by code_simp
  have r: "fc_output_dir (format_kwargs
     ((demo_state False 1)\<lparr>ns := (ns (demo_state False 1))\<lparr>output_dir_brat := Some ''brat''\<rparr>\<rparr>)) =
     Path ''brat''"
    using C5_formatted_output_directory[OF h', of demo_env] by simp
  have h: "do_format (ns (demo_state False 1)) \<noteq> 0" by code_simp
  have n: "output_dir_brat (ns (demo_state False 1)) = None" by code_simp
  have o: "output_dir (ns (demo_state False 1)) = ''out''" by code_simp
  have p: "joinpath (parent (Path ''out'')) ''out_formatted_output'' =
             Path ''out_formatted_output''" by code_simp
  have q: "stem (Path ''out'') @ ''_formatted_output'' = ''out_formatted_output''" by code_simp
  from C5_formatted_output_directory[OF h, of demo_env] n have
    "fc_output_dir (format_kwargs (demo_state False 1)) =
       joinpath (parent (Path (output_dir (ns (demo_state False 1)))))
         (stem (Path (output_dir (ns (demo_state False 1)))) @ ''_formatted_output'')"
    "parent (fc_output_dir (format_kwargs (demo_state False 1))) =
       parent (Path (output_dir (ns (demo_state False 1))))"
    "name (fc_output_dir (format_kwargs (demo_state False 1))) =
       stem (Path (output_dir (ns (demo_state False 1)))) @ ''_formatted_output''"
    by blast+
  then have
    "fc_output_dir (format_kwargs (demo_state False 1)) = Path ''out_formatted_output''"
    "parent (fc_output_dir (format_kwargs (demo_state False 1))) = parent (Path ''out'')"
    "name (fc_output_dir (format_kwargs (demo_state False 1))) = ''out_formatted_output''"
    by (simp_all only: o q p)
  with h n r show ?thesis by blast
qed

subsection \<open>C6: one entry and one line for each token\<close>

text \<open>
  Claim C6: for a file of \<open>N\<close> tokens the realignment of its prediction has \<open>N\<close>
  entries and the BIO output has \<open>N\<close> lines that are not blank. It is stated on the
  converter, the prediction and the realignment as the specification describes them, for
  every tokenizer, model, maximal sequence length and label vocabulary, and for the
  files the specification calls valid, that is under the two invariants of its section 3:
  the alignment markers of each feature recover the words of its sentence, and every
  predicted index resolves to a label. Then the labelling returns, whatever
  \<open>_output_bio\<close> does with words and indices that do not match; for each sentence the
  realignment has one entry for each token; the labelled sentences have the tokens of
  the input sentences; the lines written, the blank separators apart, are as many as the
  tokens of the file; and so are the lines of the text that are not empty, when no token
  text and no label contains a line break.
\<close>

theorem C6_one_entry_per_token:
  assumes inv: "\<forall>sent \<in> set tests. markers_recover_words tokz max_seq_len sent"
    and res: "\<forall>sent \<in> set tests. indices_resolve tokz model max_seq_len i2l sent"
  shows "\<exists>sents. spec_file_sents unmatched tokz model max_seq_len i2l tests = Inr sents \<and>
           (\<forall>sent \<in> set tests.
              length (realign (spec_convert tokz max_seq_len sent)
                        (spec_predict model (spec_convert tokz max_seq_len sent))) = length sent) \<and>
           map length sents = map length tests \<and>
           map (map tok_text) sents = map (map tok_text) tests \<and>
           length (filter (\<lambda>l. l \<noteq> []) (bio_lines sents)) = sum_list (map length tests) \<and>
           ((\<forall>sent \<in> set tests. \<forall>w \<in> set sent. CHR 0x0A \<notin> set (tok_text w)) \<and>
            (\<forall>tg \<in> ran i2l. CHR 0x0A \<notin> set tg) \<longrightarrow>
              length (non_blank_lines (bio_text sents)) = sum_list (map length tests))"
proof -
  from spec_file_sents_matched[OF inv res, of unmatched] obtain sents where
    r: "spec_file_sents unmatched tokz model max_seq_len i2l tests = Inr sents" and
    ml: "map length sents = map length tests" and
    mt: "map (map tok_text) sents = map (map tok_text) tests" and
    tg: "\<forall>s \<in> set sents. \<forall>x \<in> set s. tok_tag x \<in> ran i2l"
    by blast
  have ra: "\<forall>sent \<in> set tests.
              length (realign (spec_convert tokz max_seq_len sent)
                        (spec_predict model (spec_convert tokz max_seq_len sent))) = length sent"
    using inv by (simp only: realign_marks markers_recover_words_def)
  have wl: "length (filter (\<lambda>l. l \<noteq> []) (bio_lines sents)) = sum_list (map length tests)"
    by (simp only: filter_bio_lines length_concat_map_map ml)
  have rl: "length (non_blank_lines (bio_text sents)) = sum_list (map length tests)"
    if nl: "\<forall>sent \<in> set tests. \<forall>w \<in> set sent. CHR 0x0A \<notin> set (tok_text w)"
      and tl: "\<forall>tg \<in> ran i2l. CHR 0x0A \<notin> set tg"
  proof -
    have "\<forall>txts \<in> set (map (map tok_text) tests). \<forall>t \<in> set txts. CHR 0x0A \<notin> set t"
      using nl by auto
    then have "\<forall>txts \<in> set (map (map tok_text) sents). \<forall>t \<in> set txts. CHR 0x0A \<notin> set t"
      by (simp only: mt)
    then have "\<forall>s \<in> set sents. \<forall>x \<in> set s. CHR 0x0A \<notin> set (tok_text x)"
      by auto
    with tg tl have
      "\<forall>s \<in> set sents. \<forall>x \<in> set s. CHR 0x0A \<notin> set (tok_text x) \<and> CHR 0x0A \<notin> set (tok_tag x)"
      by blast
    from non_blank_lines_bio_text[OF this] show ?thesis
      by (simp only: length_concat_map_map ml)
  qed
  from r ra ml mt wl rl show ?thesis by blast
qed

text \<open>
  C6, an instance: the sentence of the scenario, a tokenizer that splits \<open>lives\<close> and
  \<open>Paris\<close> into three pieces each, and a maximal length of 6, which cuts the last two
  pieces of \<open>Paris\<close> and keeps its first. The model gives the second piece of \<open>lives\<close>
  the index of \<open>B-PER\<close>: the label of the word is that of its first piece.
\<close>

theorem C6_witness:
  "markers_recover_words (\<lambda>w. if 4 < length w then [1, 2, 3] else [length w]) 6 demo_sentence \<and>
   indices_resolve (\<lambda>w. if 4 < length w then [1, 2, 3] else [length w])
       (\<lambda>ids i. if i = 0 \<or> i = 2 then 1 else if i = 5 then 2 else 0) 6
       [0 \<mapsto> ''O'', 1 \<mapsto> ''B-PER'', 2 \<mapsto> ''B-LOC''] demo_sentence \<and>
   spec_file_sents (\<lambda>ws lbs. Inl (Exception ''AssertionError''))
       (\<lambda>w. if 4 < length w then [1, 2, 3] else [length w])
       (\<lambda>ids i. if i = 0 \<or> i = 2 then 1 else if i = 5 then 2 else 0) 6
       [0 \<mapsto> ''O'', 1 \<mapsto> ''B-PER'', 2 \<mapsto> ''B-LOC''] [demo_sentence] = Inr [demo_labelled] \<and>
   length (realign (spec_convert (\<lambda>w. if 4 < length w then [1, 2, 3] else [length w]) 6 demo_sentence)
             (spec_predict (\<lambda>ids i. if i = 0 \<or> i = 2 then 1 else if i = 5 then 2 else 0)
                (spec_convert (\<lambda>w. if 4 < length w then [1, 2, 3] else [length w]) 6 demo_sentence))) = 4 \<and>
   length (filter (\<lambda>l. l \<noteq> []) (bio_lines [demo_labelled])) = 4 \<and>
   length (non_blank_lines (bio_text [demo_labelled])) = 4"
proof -
  let ?un = "\<lambda>(ws :: sentence) (lbs :: nat list). Inl (Exception ''AssertionError'') :: pyerr + sentence"
  let ?tokz = "\<lambda>w :: string. if 4 < length w then [1, 2, 3] else [length w]"
  let ?model = "\<lambda>(ids :: nat list) (i :: nat). if i = 0 \<or> i = 2 then 1 else if i = 5 then 2 else (0 :: nat)"
  let ?i2l = "[0 \<mapsto> ''O'', 1 \<mapsto> ''B-PER'', (2 :: nat) \<mapsto> ''B-LOC'']"
  have m: "markers_recover_words ?tokz 6 demo_sentence"
    by code_simp
  have i: "indices_resolve ?tokz ?model 6 ?i2l demo_sentence"
    by code_simp
  have inv: "\<forall>sent \<in> set [demo_sentence]. markers_recover_words ?tokz 6 sent"
    using m by simp
  have res: "\<forall>sent \<in> set [demo_sentence]. indices_resolve ?tokz ?model 6 ?i2l sent"
    using i by simp
  have nl: "\<forall>sent \<in> set [demo_sentence]. \<forall>w \<in> set sent. CHR 0x0A \<notin> set (tok_text w)"
    by code_simp
  have tl: "\<forall>tg \<in> ran ?i2l. CHR 0x0A \<notin> set tg"
    by (auto simp: ran_def split: if_splits)
  have r: "spec_file_sents ?un ?tokz ?model 6 ?i2l [demo_sentence] = Inr [demo_labelled]"
    by code_simp
  have n: "length demo_sentence = 4" by code_simp
  from C6_one_entry_per_token[OF inv res, of ?un] r nl tl n have
    "length (realign (spec_convert ?tokz 6 demo_sentence)
             (spec_predict ?model (spec_convert ?tokz 6 demo_sentence))) = 4"
    "length (filter (\<lambda>l. l \<noteq> []) (bio_lines [demo_labelled])) = 4"
    "length (non_blank_lines (bio_text [demo_labelled])) = 4"
    by auto
  with m i r show ?thesis by simp
qed

subsection \<open>C7: an input directory without text files\<close>

text \<open>
  Claim C7: when no entry of the input directory matches \<open>*.txt\<close> (and the start-up of
  \<open>main\<close>, which does not depend on the input directory, has succeeded), the loop has
  nothing to do: \<open>main\<close> is the formatting pass applied to the state after the start-up,
  whose file system and log are those \<open>main\<close> was given. With \<open>do_format\<close> zero \<open>main\<close>
  returns normally in that state: no file has been written and nothing has been logged.
\<close>

theorem C7_empty_input_directory:
  assumes "startup E s0 = Inr (s4, pr, m, l, t)"
    and "\<forall>nm \<in> set (scandir E (fs s0) (Path (preprocessed_text_dir (ns s0)))). \<not> fnmatch_txt nm"
  shows "main E s0 = format_pass E (s4\<lparr>labeled_bio_tup_lst := Map.empty\<rparr>) \<and>
         fs s4 = fs s0 \<and> logged s4 = logged s0 \<and>
         (do_format (ns s0) = 0 \<longrightarrow> main E s0 = (None, s4\<lparr>labeled_bio_tup_lst := Map.empty\<rparr>))"
proof -
  from startup_frame[OF assms(1)] have
    f: "fs s4 = fs s0" and lg: "logged s4 = logged s0" and
    d: "preprocessed_text_dir (ns s4) = preprocessed_text_dir (ns s0)" and
    df: "do_format (ns s4) = do_format (ns s0)"
    by simp_all
  have g: "glob_txt (Path (preprocessed_text_dir (ns s0)))
             (scandir E (fs s0) (Path (preprocessed_text_dir (ns s0)))) = []"
    using assms(2) by (rule glob_txt_empty)
  have mn: "main E s0 = format_pass E (s4\<lparr>labeled_bio_tup_lst := Map.empty\<rparr>)"
    using assms(1) g f d by (simp add: main_def)
  have "do_format (ns s0) = 0 \<longrightarrow> main E s0 = (None, s4\<lparr>labeled_bio_tup_lst := Map.empty\<rparr>)"
    using mn df by (simp add: format_pass_def)
  with mn f lg show ?thesis by blast
qed

text \<open>C7, an instance: the directory \<open>notes\<close> of the concrete run, which has no text file.\<close>

theorem C7_witness:
  "list_all (\<lambda>nm. \<not> fnmatch_txt nm)
     (scandir demo_env demo_fs (Path ''notes'')) \<and>
   scandir demo_env demo_fs (Path ''notes'') \<noteq> [] \<and>
   fst (main demo_env
          (initial_state demo_env ((demo_cli True 0)\<lparr>preprocessed_text_dir := ''notes''\<rparr>) demo_fs)) = None \<and>
   fs (snd (main demo_env
          (initial_state demo_env ((demo_cli True 0)\<lparr>preprocessed_text_dir := ''notes''\<rparr>) demo_fs))) =
     demo_fs \<and>
   logged (snd (main demo_env
          (initial_state demo_env ((demo_cli True 0)\<lparr>preprocessed_text_dir := ''notes''\<rparr>) demo_fs))) =
     [(INFO, ''Task will use CPU.'')]"
proof -
  let ?s0 = "initial_state demo_env ((demo_cli True 0)\<lparr>preprocessed_text_dir := ''notes''\<rparr>) demo_fs"
  have la: "list_all (\<lambda>nm. \<not> fnmatch_txt nm) (scandir demo_env demo_fs (Path ''notes''))"
    by code_simp
  have ne: "scandir demo_env demo_fs (Path ''notes'') \<noteq> []" by code_simp
  have f0: "fs ?s0 = demo_fs" and d0: "preprocessed_text_dir (ns ?s0) = ''notes''"
    and l0: "logged ?s0 = [(INFO, ''Task will use CPU.'')]" and z: "do_format (ns ?s0) = 0"
    by (simp_all add: initial_state_def demo_cli_def demo_env_def cli_args.defs args.defs)
  have "\<exists>s4 pr m l t. startup demo_env ?s0 = Inr (s4, pr, m, l, t)"
    by (simp add: startup_def demo_env_def initial_state_def demo_cli_def cli_args.defs args.defs Let_def)
  then obtain s4 pr m l t where st: "startup demo_env ?s0 = Inr (s4, pr, m, l, t)" by blast
  have h: "\<forall>nm \<in> set (scandir demo_env (fs ?s0) (Path (preprocessed_text_dir (ns ?s0)))). \<not> fnmatch_txt nm"
    using la unfolding f0 d0 by (simp add: list_all_iff)
  from C7_empty_input_directory[OF st h] z have
    "main demo_env ?s0 = (None, s4\<lparr>labeled_bio_tup_lst := Map.empty\<rparr>)"
    "fs s4 = fs ?s0" "logged s4 = logged ?s0"
    by blast+
  then have "fst (main demo_env ?s0) = None" "fs (snd (main demo_env ?s0)) = demo_fs"
    "logged (snd (main demo_env ?s0)) = [(INFO, ''Task will use CPU.'')]"
    using f0 l0 by simp_all
  with la ne show ?thesis by blast
qed

subsection \<open>C8: the version of the transformers library\<close>

text \<open>
  Claim C8: when the version of the library is below 3.0.0 the script ends with the
  assertion error of the module level, before \<open>main\<close> is called: the file system is
  untouched. When it is at least 3.0.0 the script is \<open>main\<close> on the initial namespace.
  Below is the negation of at least; and for a version that is only a release (epoch 0,
  no pre-, post- or development release) at least 3.0.0 means a first release number of
  3 or more.
\<close>

theorem C8_version_assertion:
  "(version_lt v v3_0_0 \<longrightarrow>
      script E v cli f =
        (Some (Exception ''AssertionError: we now only support transformers version >=3.0.0''), Inl f)) \<and>
   (version_ge v v3_0_0 \<longrightarrow>
      script E v cli f = (case main E (initial_state E cli f) of (r, s) \<Rightarrow> (r, Inr s))) \<and>
   version_lt v v3_0_0 = (\<not> version_ge v v3_0_0) \<and>
   (epoch v = 0 \<and> pre v = None \<and> post v = None \<and> dev v = None \<longrightarrow>
      version_ge v v3_0_0 = (\<exists>major rest. release v = major # rest \<and> 3 \<le> major))"
proof -
  have a: "version_lt v v3_0_0 = (\<not> version_ge v v3_0_0)"
    by (simp add: version_lt_def version_ge_def)
  have b: "version_lt v v3_0_0 \<longrightarrow>
      script E v cli f =
        (Some (Exception ''AssertionError: we now only support transformers version >=3.0.0''), Inl f)"
    by (simp add: a script_def version_assertion_def)
  have c: "version_ge v v3_0_0 \<longrightarrow>
      script E v cli f = (case main E (initial_state E cli f) of (r, s) \<Rightarrow> (r, Inr s))"
    by (simp add: script_def version_assertion_def)
  have d: "epoch v = 0 \<and> pre v = None \<and> post v = None \<and> dev v = None \<longrightarrow>
      version_ge v v3_0_0 = (\<exists>major rest. release v = major # rest \<and> 3 \<le> major)"
    using version_ge_plain_release[of v] by blast
  show ?thesis
    by (rule conjI, rule b, rule conjI, rule c, rule conjI, rule a, rule d)
qed

text \<open>C8, an instance: 2.11.0 and 3.0.0rc1 are below 3.0.0; 3.0 and 4.30.2 are not.\<close>

theorem C8_witness:
  "version_lt \<lparr>epoch = 0, release = [2, 11, 0], pre = None, post = None, dev = None,
               local_segments = None\<rparr> v3_0_0 \<and>
   script demo_env \<lparr>epoch = 0, release = [2, 11, 0], pre = None, post = None, dev = None,
                    local_segments = None\<rparr> (demo_cli True 0) demo_fs =
     (Some (Exception ''AssertionError: we now only support transformers version >=3.0.0''), Inl demo_fs) \<and>
   version_lt \<lparr>epoch = 0, release = [3, 0, 0], pre = Some (''rc'', 1), post = None, dev = None,
               local_segments = None\<rparr> v3_0_0 \<and>
   version_ge \<lparr>epoch = 0, release = [3, 0], pre = None, post = None, dev = None,
               local_segments = None\<rparr> v3_0_0 \<and>
   version_ge \<lparr>epoch = 0, release = [4, 30, 2], pre = None, post = None, dev = None,
               local_segments = None\<rparr> v3_0_0 \<and>
   fst (script demo_env \<lparr>epoch = 0, release = [4, 30, 2], pre = None, post = None, dev = None,
                         local_segments = None\<rparr> (demo_cli True 0) demo_fs) = None"
proof -
  have l1: "version_lt \<lparr>epoch = 0, release = [2, 11, 0], pre = None, post = None, dev = None,
               local_segments = None\<rparr> v3_0_0" by code_simp
  have l2: "version_lt \<lparr>epoch = 0, release = [3, 0, 0], pre = Some (''rc'', 1), post = None, dev = None,
               local_segments = None\<rparr> v3_0_0" by code_simp
  have g1: "version_ge \<lparr>epoch = 0, release = [3, 0], pre = None, post = None, dev = None,
               local_segments = None\<rparr> v3_0_0" by code_simp
  have g2: "version_ge \<lparr>epoch = 0, release = [4, 30, 2], pre = None, post = None, dev = None,
               local_segments = None\<rparr> v3_0_0" by code_simp
  have m: "fst (main demo_env (initial_state demo_env (demo_cli True 0) demo_fs)) = None" by code_simp
  from C8_version_assertion[of "\<lparr>epoch = 0, release = [2, 11, 0], pre = None, post = None, dev = None,
               local_segments = None\<rparr>" demo_env "demo_cli True 0" demo_fs] l1
  have c1: "script demo_env \<lparr>epoch = 0, release = [2, 11, 0], pre = None, post = None, dev = None,
                    local_segments = None\<rparr> (demo_cli True 0) demo_fs =
     (Some (Exception ''AssertionError: we now only support transformers version >=3.0.0''), Inl demo_fs)"
    by blast
  from C8_version_assertion[of "\<lparr>epoch = 0, release = [4, 30, 2], pre = None, post = None, dev = None,
               local_segments = None\<rparr>" demo_env "demo_cli True 0" demo_fs] g2
  have "script demo_env \<lparr>epoch = 0, release = [4, 30, 2], pre = None, post = None, dev = None,
                         local_segments = None\<rparr> (demo_cli True 0) demo_fs =
        (case main demo_env (initial_state demo_env (demo_cli True 0) demo_fs) of (r, s) \<Rightarrow> (r, Inr s))"
    by blast
  then have c2: "fst (script demo_env \<lparr>epoch = 0, release = [4, 30, 2], pre = None, post = None, dev = None,
                         local_segments = None\<rparr> (demo_cli True 0) demo_fs) = None"
    using m by (simp add: split_beta)
  show ?thesis
    by (intro conjI l1 l2 g1 g2 c1 c2)
qed

subsection \<open>C9: two input files, one output path\<close>

text \<open>
  Claim C9: the output name is \<open>stem.split(".")[0] + ".bio.txt"\<close>, so the map from input
  files to output paths is not injective. Two input files whose names agree before the
  first dot are given the same output path, and when both are processed in \<open>use_bio\<close>
  mode without an exception, the file at that path holds, after the second, the lines
  of the second: the output of the first is overwritten.
\<close>

theorem C9_output_name_collision:
  assumes "use_bio (ns s)"
    and "takeWhile (\<lambda>c. c \<noteq> CHR ''.'') (name f1) = takeWhile (\<lambda>c. c \<noteq> CHR ''.'') (name f2)"
    and "try_body E pr m l t f1 s = (None, s1)"
    and "try_body E pr m l t f2 s1 = (None, s2)"
  shows "ofn f1 = hd (split_on CHR ''.'' (stem f1)) @ ''.bio.txt'' \<and>
         \<not> inj ofn \<and>
         ofn f1 = ofn f2 \<and>
         predict_output_file (ns s1) = Some (os_path_join (output_dir (ns s)) (ofn f1)) \<and>
         predict_output_file (ns s2) = predict_output_file (ns s1) \<and>
         (\<exists>sents1. files (fs s1) (Path (os_path_join (output_dir (ns s)) (ofn f1))) =
                     Some (bio_text sents1)) \<and>
         (\<exists>tests preds sents2.
             run_prediction E pr m l t f2 s1 = Inr (tests, preds) \<and>
             bio_sents E (ns s2) tests preds = Inr sents2 \<and>
             files (fs s2) (Path (os_path_join (output_dir (ns s)) (ofn f1))) =
               Some (bio_text sents2))"
proof -
  have eq: "ofn f1 = ofn f2"
    using assms(2) by (simp only: ofn_name)
  from try_body_bio_success[OF assms(1,3)] obtain g1 sents1 where
    s1: "s1 = s\<lparr>ns := (ns s)\<lparr>predict_output_file := Some (os_path_join (output_dir (ns s)) (ofn f1))\<rparr>,
                fs := g1\<lparr>files := (files g1)(Path (os_path_join (output_dir (ns s)) (ofn f1)) \<mapsto>
                                      bio_text sents1)\<rparr>\<rparr>"
    by blast
  have ub1: "use_bio (ns s1)" and od1: "output_dir (ns s1) = output_dir (ns s)"
    using assms(1) s1 by simp_all
  from try_body_bio_success[OF ub1 assms(4)] obtain tests preds g2 sents2 where
    rp: "run_prediction E pr m l t f2 s1 = Inr (tests, preds)" and
    bs: "bio_sents E ((ns s1)\<lparr>predict_output_file := Some (os_path_join (output_dir (ns s1)) (ofn f2))\<rparr>)
           tests preds = Inr sents2" and
    s2: "s2 = s1\<lparr>ns := (ns s1)\<lparr>predict_output_file := Some (os_path_join (output_dir (ns s1)) (ofn f2))\<rparr>,
                 fs := g2\<lparr>files := (files g2)(Path (os_path_join (output_dir (ns s1)) (ofn f2)) \<mapsto>
                                       bio_text sents2)\<rparr>\<rparr>"
    by blast
  have c1: "predict_output_file (ns s1) = Some (os_path_join (output_dir (ns s)) (ofn f1))"
    using s1 by simp
  have c2: "predict_output_file (ns s2) = predict_output_file (ns s1)"
    using s2 c1 od1 eq by simp
  have c3: "files (fs s1) (Path (os_path_join (output_dir (ns s)) (ofn f1))) = Some (bio_text sents1)"
    using s1 by simp
  have c4: "files (fs s2) (Path (os_path_join (output_dir (ns s)) (ofn f1))) = Some (bio_text sents2)"
    using s2 od1 eq by simp
  have c5: "bio_sents E (ns s2) tests preds = Inr sents2"
    using bs s2 by simp
  show ?thesis
    using eq c1 c2 c3 c4 c5 rp ofn_not_inj by (simp add: ofn_def) blast
qed

text \<open>C9, an instance: \<open>doc.txt\<close> and then \<open>doc.note.txt\<close> in the concrete run.\<close>

theorem C9_witness:
  "use_bio (ns (demo_state True 0)) \<and>
   takeWhile (\<lambda>c. c \<noteq> CHR ''.'') (name (Path ''in/doc.txt'')) =
     takeWhile (\<lambda>c. c \<noteq> CHR ''.'') (name (Path ''in/doc.note.txt'')) \<and>
   Path ''in/doc.txt'' \<noteq> Path ''in/doc.note.txt'' \<and>
   fst (try_body demo_env demo_processor () demo_l2i () (Path ''in/doc.txt'') (demo_state True 0)) = None \<and>
   fst (try_body demo_env demo_processor () demo_l2i () (Path ''in/doc.note.txt'')
          (snd (try_body demo_env demo_processor () demo_l2i () (Path ''in/doc.txt'') (demo_state True 0)))) = None \<and>
   ofn (Path ''in/doc.txt'') = ofn (Path ''in/doc.note.txt'') \<and>
   predict_output_file (ns (snd (try_body demo_env demo_processor () demo_l2i () (Path ''in/doc.note.txt'')
          (snd (try_body demo_env demo_processor () demo_l2i () (Path ''in/doc.txt'') (demo_state True 0)))))) =
     predict_output_file (ns (snd (try_body demo_env demo_processor () demo_l2i () (Path ''in/doc.txt'') (demo_state True 0))))"
proof -
  let ?s1 = "snd (try_body demo_env demo_processor () demo_l2i () (Path ''in/doc.txt'') (demo_state True 0))"
  let ?s2 = "snd (try_body demo_env demo_processor () demo_l2i () (Path ''in/doc.note.txt'') ?s1)"
  have h1: "use_bio (ns (demo_state True 0))" by code_simp
  have h2: "takeWhile (\<lambda>c. c \<noteq> CHR ''.'') (name (Path ''in/doc.txt'')) =
     takeWhile (\<lambda>c. c \<noteq> CHR ''.'') (name (Path ''in/doc.note.txt''))" by code_simp
  have h3: "fst (try_body demo_env demo_processor () demo_l2i () (Path ''in/doc.txt'') (demo_state True 0)) = None"
    by code_simp
  have h4: "fst (try_body demo_env demo_processor () demo_l2i () (Path ''in/doc.note.txt'') ?s1) = None"
    by code_simp
  have h5: "Path ''in/doc.txt'' \<noteq> Path ''in/doc.note.txt''" by code_simp
  from h3 have h3': "try_body demo_env demo_processor () demo_l2i () (Path ''in/doc.txt'') (demo_state True 0) = (None, ?s1)"
    by (simp add: prod_eq_iff)
  from h4 have h4': "try_body demo_env demo_processor () demo_l2i () (Path ''in/doc.note.txt'') ?s1 = (None, ?s2)"
    by (simp add: prod_eq_iff)
  from C9_output_name_collision[OF h1 h2 h3' h4'] h1 h2 h3 h4 h5 show ?thesis by blast
qed

subsection \<open>C10: a partial entry in the accumulator\<close>

text \<open>
  Claim C10: without \<open>use_bio\<close>, when \<open>_output_bio\<close> returns for a file and reading the
  raw text of the file then raises an exception, the entry of the file in
  \<open>labeled_bio_tup_lst\<close> holds \<open>sents\<close> and no \<open>raw_text\<close>, the error is logged, the loop
  goes on, and at the end of the loop the entry is still there, in the accumulator that
  the keyword arguments of the format converter carry. (Names in a directory are
  distinct: no other file of the loop has this name, and the entry was fresh.)
\<close>

theorem C10_partial_entry:
  assumes nb: "\<not> use_bio (ns s)"
    and rp: "run_prediction E pr m l t f s = Inr (tests, preds)"
    and ob: "task_output_bio E (ns s) tests preds False (fs s) = Inr (r, f1)"
    and rd: "read_text E f f1 = Inl (Exception tb)"
    and fresh: "labeled_bio_tup_lst s (name f) = None"
    and others: "name f \<notin> name ` set rest"
  shows "process_file E pr m l t f s =
           (None, s\<lparr>labeled_bio_tup_lst := (labeled_bio_tup_lst s)(name f \<mapsto> [''sents'' \<mapsto> r]),
                    logged := logged s @ error_records f (Exception tb)\<rparr>) \<and>
         labeled_bio_tup_lst (snd (batch_loop E pr m l t (f # rest) s)) (name f) =
           Some [''sents'' \<mapsto> r] \<and>
         fc_labeled_bio_tup_lst (format_kwargs (snd (batch_loop E pr m l t (f # rest) s))) (name f) =
           Some [''sents'' \<mapsto> r]"
proof -
  from task_output_bio_False[OF ob] have f1: "f1 = fs s" by blast
  have tb: "try_body E pr m l t f s =
      (Some (Exception tb), s\<lparr>labeled_bio_tup_lst := (labeled_bio_tup_lst s)(name f \<mapsto> [''sents'' \<mapsto> r])\<rparr>)"
    using nb rp ob rd fresh f1 by (simp add: try_body_def setitem2_def)
  then have pf: "process_file E pr m l t f s =
           (None, s\<lparr>labeled_bio_tup_lst := (labeled_bio_tup_lst s)(name f \<mapsto> [''sents'' \<mapsto> r]),
                    logged := logged s @ error_records f (Exception tb)\<rparr>)"
    by (simp add: process_file_cases)
  let ?s' = "s\<lparr>labeled_bio_tup_lst := (labeled_bio_tup_lst s)(name f \<mapsto> [''sents'' \<mapsto> r]),
                    logged := logged s @ error_records f (Exception tb)\<rparr>"
  have "labeled_bio_tup_lst (snd (batch_loop E pr m l t rest ?s')) (name f) = labeled_bio_tup_lst ?s' (name f)"
    using others by (rule batch_loop_acc_other)
  then have acc: "labeled_bio_tup_lst (snd (batch_loop E pr m l t (f # rest) s)) (name f) =
           Some [''sents'' \<mapsto> r]"
    using pf by simp
  then show ?thesis using pf by (simp add: format_kwargs_def)
qed

text \<open>
  C10, an instance: \<open>latin.txt\<close> of the concrete run, whose text cannot be decoded,
  followed by \<open>doc.txt\<close>.
\<close>

theorem C10_witness:
  "\<not> use_bio (ns (demo_state False 1)) \<and>
   run_prediction demo_env demo_processor () demo_l2i () (Path ''in/latin.txt'') (demo_state False 1) =
     Inr ([demo_sentence], [[1, 0, 0, 2]]) \<and>
   read_text demo_env (Path ''in/latin.txt'') (fs (demo_state False 1)) =
     Inl (Exception ''UnicodeDecodeError'') \<and>
   labeled_bio_tup_lst
     (snd (batch_loop demo_env demo_processor () demo_l2i ()
             (Path ''in/latin.txt'' # [Path ''in/doc.txt'']) (demo_state False 1)))
     (name (Path ''in/latin.txt'')) = Some [''sents'' \<mapsto> Sents [demo_labelled]] \<and>
   fc_labeled_bio_tup_lst
     (format_kwargs (snd (batch_loop demo_env demo_processor () demo_l2i ()
             (Path ''in/latin.txt'' # [Path ''in/doc.txt'']) (demo_state False 1))))
     (name (Path ''in/latin.txt'')) = Some [''sents'' \<mapsto> Sents [demo_labelled]]"
proof -
  have nb: "\<not> use_bio (ns (demo_state False 1))" by code_simp
  have rp: "run_prediction demo_env demo_processor () demo_l2i () (Path ''in/latin.txt'') (demo_state False 1) =
     Inr ([demo_sentence], [[1, 0, 0, 2]])" by code_simp
  have ob: "task_output_bio demo_env (ns (demo_state False 1)) [demo_sentence] [[1, 0, 0, 2]] False
              (fs (demo_state False 1)) = Inr (Sents [demo_labelled], fs (demo_state False 1))"
    by (simp add: task_output_bio_def demo_env_def demo_sentence_def demo_labelled_def demo_labels_def)
  have rd: "read_text demo_env (Path ''in/latin.txt'') (fs (demo_state False 1)) =
     Inl (Exception ''UnicodeDecodeError'')" by code_simp
  have fresh: "labeled_bio_tup_lst (demo_state False 1) (name (Path ''in/latin.txt'')) = None"
    by (simp add: demo_state_def initial_state_def)
  have others: "name (Path ''in/latin.txt'') \<notin> name ` set [Path ''in/doc.txt'']" by code_simp
  from C10_partial_entry[OF nb rp ob rd fresh others] nb rp rd show ?thesis by blast
qed

end
